theory Spec2Isabelle
  imports Main "HOL-Library.Sublist"
begin

section \<open>Strings\<close>

text \<open>
  A JavaScript string is modelled as a \<^typ>\<open>string\<close>, one \<^typ>\<open>char\<close> per code unit
  (code units below 256). The string methods the program calls are written out below
  with the argument order of the method call: \<open>startsWith s p\<close> is \<open>s.startsWith(p)\<close>.
\<close>

definition startsWith :: "string \<Rightarrow> string \<Rightarrow> bool" where
  "startsWith s p = (take (length p) s = p)"

fun includes_str :: "string \<Rightarrow> string \<Rightarrow> bool" where
  "includes_str [] n = (n = [])"
| "includes_str (c # cs) n = (startsWith (c # cs) n \<or> includes_str cs n)"

text \<open>\<open>xs.join(sep)\<close>.\<close>

fun join :: "string list \<Rightarrow> string \<Rightarrow> string" where
  "join [] sep = []"
| "join [x] sep = x"
| "join (x # y # ys) sep = x @ sep @ join (y # ys) sep"

text \<open>
  \<open>String(n)\<close> for a non-negative integer, as a template literal prints a line or a
  column number.
\<close>

fun numberToString :: "nat \<Rightarrow> string" where
  "numberToString n =
     (if n < 10 then [''0123456789'' ! n]
      else numberToString (n div 10) @ [''0123456789'' ! (n mod 10)])"

declare numberToString.simps [simp del]

text \<open>
  The replacement text of \<open>String.prototype.replace\<close> when the replacement is a string
  and the pattern has no capture groups: \<open>$$\<close> stands for a dollar sign, \<open>$&\<close> for the
  matched text, \<open>$`\<close> for the text before the match and \<open>$'\<close> for the text after it;
  a dollar sign followed by anything else is itself.
\<close>

fun getSubstitution :: "string \<Rightarrow> string \<Rightarrow> nat \<Rightarrow> string \<Rightarrow> string" where
  "getSubstitution matched str position [] = []"
| "getSubstitution matched str position (c # rest) =
     (if c = CHR ''$'' then
        (case rest of
           [] \<Rightarrow> [c]
         | d # rest' \<Rightarrow>
             if d = CHR ''$'' then CHR ''$'' # getSubstitution matched str position rest'
             else if d = CHR ''&'' then matched @ getSubstitution matched str position rest'
             else if d = CHR 0x60 then take position str @ getSubstitution matched str position rest'
             else if d = CHR 0x27 then
               drop (position + length matched) str @ getSubstitution matched str position rest'
             else c # d # getSubstitution matched str position rest')
      else c # getSubstitution matched str position rest)"

text \<open>
  \<open>str.replace(/&/g, replacement)\<close>: the scan of \<open>str\<close> from \<open>position\<close>, whose
  remaining characters are the third argument.
\<close>

fun replaceFrom :: "string \<Rightarrow> nat \<Rightarrow> string \<Rightarrow> string \<Rightarrow> string" where
  "replaceFrom str position [] replacement = []"
| "replaceFrom str position (c # cs) replacement =
     (if c = CHR ''&'' then getSubstitution ''&'' str position replacement else [c])
       @ replaceFrom str (Suc position) cs replacement"

definition replaceAmpersands :: "string \<Rightarrow> string \<Rightarrow> string" where
  "replaceAmpersands str replacement = replaceFrom str 0 str replacement"

text \<open>
  \<open>s.replace(/^[^(]+(\([^)]+\))[^)]*$/, '$1')\<close>. The pattern is anchored at both ends:
  it matches when \<open>s\<close> is one or more characters other than \<open>(\<close>, then \<open>(\<close>, one or more
  characters other than \<open>)\<close>, then \<open>)\<close>, then characters other than \<open>)\<close> up to the end.
  Every quantifier is followed by the character its class excludes, so backtracking
  finds no other split. On a match the whole string is replaced by the group; without
  one the string is returned as it is.
\<close>

definition matchCondition :: "string \<Rightarrow> string option" where
  "matchCondition s =
     (let head_part = takeWhile (\<lambda>c. c \<noteq> CHR ''('') s;
          opened = dropWhile (\<lambda>c. c \<noteq> CHR ''('') s
      in if head_part = [] \<or> opened = [] then None
         else
           let inner = takeWhile (\<lambda>c. c \<noteq> CHR '')'') (tl opened);
               closed = dropWhile (\<lambda>c. c \<noteq> CHR '')'') (tl opened)
           in if inner = [] \<or> closed = [] then None
              else if CHR '')'' \<in> set (tl closed) then None
              else Some (CHR ''('' # inner @ '')''))"

definition replaceCondition :: "string \<Rightarrow> string" where
  "replaceCondition s = (case matchCondition s of None \<Rightarrow> s | Some condition \<Rightarrow> condition)"

section \<open>Blocks\<close>

record position =
  line :: nat
  column :: nat

record metadata =
  start :: position
  finish :: "position option"

record property =
  key :: string
  val :: string

text \<open>
  A block of the tree. \<open>properties\<close>, \<open>children\<close> and \<open>metadata\<close> may be absent
  (\<open>undefined\<close>); the field \<open>end\<close> of the metadata is \<open>finish\<close> here.
\<close>

datatype block = Block
  (selectors: "string list")
  (properties: "property list option")
  (children: "block list option")
  (metadata: "metadata option")

type_synonym AbstractTree = "block list"

datatype error =
    ParsingError string nat nat
  | RenderingError string
  | TypeError

section \<open>Renderer\<close>

text \<open>
  \<open>state.output\<close> is an object used as a dictionary from context names to arrays of
  fragments. \<open>Object.entries\<close> lists its keys in insertion order (no context name is
  an integer index: each is \<open>root\<close> or starts with \<open>@\<close>), so the dictionary is an
  association list in insertion order.
\<close>

type_synonym RenderState = "(string \<times> string list) list"

text \<open>The message built by the constructor of \<open>RenderingError\<close>.\<close>

definition newRenderingError :: "string \<Rightarrow> block \<Rightarrow> error" where
  "newRenderingError message b =
     RenderingError (''Rendering error: '' @ message @ '' @ line ''
       @ (case metadata b of None \<Rightarrow> ''undefined''
          | Some m \<Rightarrow> numberToString (line (start m)))
       @ '' (column ''
       @ (case metadata b of None \<Rightarrow> ''undefined''
          | Some m \<Rightarrow> numberToString (column (start m)))
       @ '').'')"

definition renderSelector :: "string \<Rightarrow> string \<Rightarrow> string" where
  "renderSelector selector parent =
     (if includes_str selector ''&'' then replaceAmpersands selector parent
      else parent @ '' '' @ selector)"

definition renderProperties :: "property list \<Rightarrow> string" where
  "renderProperties ps = join (map (\<lambda>p. key p @ '':'' @ val p) ps) '';''"

text \<open>\<open>state.output[context].push(fragment)\<close>.\<close>

fun pushFragment :: "RenderState \<Rightarrow> string \<Rightarrow> string \<Rightarrow> RenderState" where
  "pushFragment [] context fragment = []"
| "pushFragment ((c, blocks) # rest) context fragment =
     (if c = context then (c, blocks @ [fragment]) # rest
      else (c, blocks) # pushFragment rest context fragment)"

text \<open>
  Every branch of \<open>renderBlock\<close> either throws or calls \<open>renderBlockContent\<close> on the
  same state and block with a context and a selector list of its own. \<open>renderTarget\<close>
  is that choice: the error thrown, or the context and the selector list passed on.
  Reading \<open>block.selectors[0]\<close> of an empty array gives \<open>undefined\<close>, and calling
  \<open>startsWith\<close> on it throws a \<open>TypeError\<close>.
\<close>

definition renderTarget :: "block \<Rightarrow> string \<Rightarrow> string list \<Rightarrow> error + string \<times> string list" where
  "renderTarget b context parents =
     (case selectors b of
        [] \<Rightarrow> Inl TypeError
      | first # _ \<Rightarrow>
          if startsWith first ''@media screen'' then
            (if includes_str context ''screen'' then
               Inl (newRenderingError ''Nested media queries are not supported'' b)
             else if includes_str context ''-color-scheme'' then
               Inl (newRenderingError
                      ''Responsive media queries cannot be nested inside color scheme at-rules'' b)
             else Inr (first, parents))
          else if startsWith first ''@media'' \<and> includes_str first ''-color-scheme'' then
            (if includes_str context ''-color-scheme'' then
               Inl (newRenderingError ''Nested color scheme at-rules are not supported'' b)
             else
               Inr (if \<not> startsWith context ''@media screen'' then first
                    else context @ ''and'' @ replaceCondition first,
                    parents))
          else if startsWith first ''@'' then
            (if startsWith context ''@'' then
               Inl (newRenderingError ''Nested at-rules are not supported'' b)
             else Inr (first, []))
          else
            Inr (context,
                 concat (map (\<lambda>selector.
                   if parents = [] then [selector]
                   else map (\<lambda>parent. renderSelector selector parent) parents)
                   (selectors b))))"

text \<open>
  The first half of \<open>renderBlockContent\<close>: the context's array is created when it is
  not there, and a block with properties pushes its fragment.
\<close>

definition renderOwnContent :: "RenderState \<Rightarrow> string \<Rightarrow> string list \<Rightarrow> block \<Rightarrow> RenderState" where
  "renderOwnContent state context sels b =
     (let state1 = (if map_of state context = None then state @ [(context, [])] else state)
      in case properties b of
           None \<Rightarrow> state1
         | Some ps \<Rightarrow>
             if ps \<noteq> [] then
               pushFragment state1 context
                 (join sels '','' @ ''{'' @ renderProperties ps @ ''}'')
             else state1)"

text \<open>
  \<open>renderBlock\<close> and \<open>renderBlockContent\<close> call each other; \<open>renderChildren\<close> is the
  \<open>for\<close> loop over \<open>block.children\<close> (and over the tree, in \<open>renderTreeToString\<close>,
  where the context is \<open>root\<close> and there are no parents).
\<close>

function renderBlock :: "RenderState \<Rightarrow> block \<Rightarrow> string \<Rightarrow> string list \<Rightarrow> error + RenderState"
  and renderBlockContent :: "RenderState \<Rightarrow> string \<Rightarrow> string list \<Rightarrow> block \<Rightarrow> error + RenderState"
  and renderChildren :: "RenderState \<Rightarrow> block list \<Rightarrow> string \<Rightarrow> string list \<Rightarrow> error + RenderState"
where
  "renderBlock state (Block sels props ch md) context parents =
     (case renderTarget (Block sels props ch md) context parents of
        Inl e \<Rightarrow> Inl e
      | Inr (target, sels') \<Rightarrow> renderBlockContent state target sels' (Block sels props ch md))"
| "renderBlockContent state context sels' (Block sels props ch md) =
     (case ch of
        None \<Rightarrow> Inr (renderOwnContent state context sels' (Block sels props ch md))
      | Some cs \<Rightarrow>
          if cs \<noteq> [] then
            renderChildren (renderOwnContent state context sels' (Block sels props ch md))
              cs context sels'
          else Inr (renderOwnContent state context sels' (Block sels props ch md)))"
| "renderChildren state [] context parents = Inr state"
| "renderChildren state (child # rest) context parents =
     (case renderBlock state child context parents of
        Inl e \<Rightarrow> Inl e
      | Inr state' \<Rightarrow> renderChildren state' rest context parents)"
  by pat_completeness auto

termination
  by (relation "measure (\<lambda>x. case x of
          Inl (state, b, context, parents) \<Rightarrow> 2 * size b + 1
        | Inr (Inl (state, context, sels, b)) \<Rightarrow> 2 * size b
        | Inr (Inr (state, cs, context, parents)) \<Rightarrow> 2 * size_list size cs + 1)")
    auto

definition renderTreeToString :: "AbstractTree \<Rightarrow> error + string" where
  "renderTreeToString tree =
     (case renderChildren [] tree ''root'' [] of
        Inl e \<Rightarrow> Inl e
      | Inr state \<Rightarrow>
          Inr (concat (map (\<lambda>(context, blocks).
                 if blocks = [] then []
                 else if context = ''root'' then concat blocks
                 else context @ ''{'' @ concat blocks @ ''}'') state)))"

section \<open>Mutable block view\<close>

text \<open>
  \<open>makeMutableBlock\<close> sets \<open>block.properties\<close> when it is absent and returns an object
  of closures over \<open>block\<close>. Each closure is a function of the block here: a query
  returns its result, a mutation returns the block as it is after the call.
\<close>

definition makeMutableBlock :: "block \<Rightarrow> block" where
  "makeMutableBlock b =
     Block (selectors b)
       (Some (case properties b of None \<Rightarrow> [] | Some ps \<Rightarrow> ps))
       (children b) (metadata b)"

text \<open>
  \<open>block.properties!\<close>: behind a view the field is always there, since
  \<open>makeMutableBlock\<close> has set it and no closure removes it.
\<close>

definition propertiesOf :: "block \<Rightarrow> property list" where
  "propertiesOf b = (case properties b of None \<Rightarrow> [] | Some ps \<Rightarrow> ps)"

definition hasChildren :: "block \<Rightarrow> bool" where
  "hasChildren b = (case children b of None \<Rightarrow> False | Some cs \<Rightarrow> cs \<noteq> [])"

definition getSelectors :: "block \<Rightarrow> string list" where
  "getSelectors b = selectors b"

definition setSelectors :: "block \<Rightarrow> string list \<Rightarrow> block" where
  "setSelectors b newSelectors = Block newSelectors (properties b) (children b) (metadata b)"

definition hasProperty :: "block \<Rightarrow> string \<Rightarrow> bool" where
  "hasProperty b k = list_ex (\<lambda>p. key p = k) (propertiesOf b)"

definition getProperty :: "block \<Rightarrow> string \<Rightarrow> string option" where
  "getProperty b k = map_option val (find (\<lambda>p. key p = k) (propertiesOf b))"

definition getProperties :: "block \<Rightarrow> property list" where
  "getProperties b = propertiesOf b"

text \<open>\<open>property.value = value\<close> on the entry that \<open>find\<close> returned: the first match.\<close>

fun assignFirst :: "property list \<Rightarrow> string \<Rightarrow> string \<Rightarrow> property list" where
  "assignFirst [] k v = []"
| "assignFirst (p # ps) k v =
     (if key p = k then p\<lparr>val := v\<rparr> # ps else p # assignFirst ps k v)"

definition setProperty :: "block \<Rightarrow> string \<Rightarrow> string \<Rightarrow> block" where
  "setProperty b k v =
     (case find (\<lambda>p. key p = k) (propertiesOf b) of
        Some _ \<Rightarrow>
          Block (selectors b) (Some (assignFirst (propertiesOf b) k v)) (children b) (metadata b)
      | None \<Rightarrow>
          Block (selectors b) (Some (propertiesOf b @ [\<lparr>key = k, val = v\<rparr>]))
            (children b) (metadata b))"

definition removeProperty :: "block \<Rightarrow> string \<Rightarrow> block" where
  "removeProperty b k =
     Block (selectors b) (Some (filter (\<lambda>p. key p \<noteq> k) (propertiesOf b)))
       (children b) (metadata b)"

section \<open>Transformer\<close>

text \<open>
  What a handler throws, as far as the \<open>catch\<close> of \<open>transformTree\<close> looks at it: an
  object with a string \<open>message\<close>, or some other value, whose \<open>message\<close> is
  \<open>undefined\<close>. (Throwing \<open>null\<close> or \<open>undefined\<close> is not modelled.)
\<close>

datatype thrown = ErrorObject string | OtherValue

definition messageOf :: "thrown \<Rightarrow> string" where
  "messageOf e = (case e of ErrorObject m \<Rightarrow> m | OtherValue \<Rightarrow> ''undefined'')"

text \<open>
  A transform handler is foreign code that is handed the view and nothing else. One
  call of it is a script of calls to the view's closures, each continuing with the
  value it got back, that ends by returning or throwing; \<open>'w\<close> is whatever state the
  handler keeps outside the tree, and a handler is a script for every such state.
\<close>

datatype 'w action =
    Return 'w
  | Throw thrown
  | HasChildren "bool \<Rightarrow> 'w action"
  | GetSelectors "string list \<Rightarrow> 'w action"
  | SetSelectors "string list" "'w action"
  | HasProperty string "bool \<Rightarrow> 'w action"
  | GetProperty string "string option \<Rightarrow> 'w action"
  | GetProperties "property list \<Rightarrow> 'w action"
  | SetProperty string string "'w action"
  | RemoveProperty string "'w action"

type_synonym 'w handler = "'w \<Rightarrow> 'w action"

primrec runAction :: "'w action \<Rightarrow> block \<Rightarrow> thrown + block \<times> 'w" where
  "runAction (Return w) b = Inr (b, w)"
| "runAction (Throw e) b = Inl e"
| "runAction (HasChildren k) b = runAction (k (hasChildren b)) b"
| "runAction (GetSelectors k) b = runAction (k (getSelectors b)) b"
| "runAction (SetSelectors newSelectors a) b = runAction a (setSelectors b newSelectors)"
| "runAction (HasProperty name k) b = runAction (k (hasProperty b name)) b"
| "runAction (GetProperty name k) b = runAction (k (getProperty b name)) b"
| "runAction (GetProperties k) b = runAction (k (getProperties b)) b"
| "runAction (SetProperty name v a) b = runAction a (setProperty b name v)"
| "runAction (RemoveProperty name a) b = runAction a (removeProperty b name)"

text \<open>The loop \<open>for (const plugin of plugins) plugin.handler(mutableBlock)\<close>.\<close>

fun applyPlugins :: "'w handler list \<Rightarrow> block \<Rightarrow> 'w \<Rightarrow> thrown + block \<times> 'w" where
  "applyPlugins [] b w = Inr (b, w)"
| "applyPlugins (plugin # plugins) b w =
     (case runAction (plugin w) b of
        Inl e \<Rightarrow> Inl e
      | Inr (b', w') \<Rightarrow> applyPlugins plugins b' w')"

lemma size_children: "children b = Some cs \<Longrightarrow> size_list size cs < size b"
  by (cases b) simp

lemma runAction_children:
  "runAction a b = Inr (b', w') \<Longrightarrow> children b' = children b"
  by (induction a arbitrary: b)
     (auto simp: setSelectors_def setProperty_def removeProperty_def split: option.splits)

lemma applyPlugins_children:
  "applyPlugins plugins b w = Inr (b', w') \<Longrightarrow> children b' = children b"
  by (induction plugins arbitrary: b w)
     (auto split: sum.splits dest: runAction_children)

text \<open>
  \<open>transformTree\<close> is the loop over the tree; \<open>tryBlock\<close> is the body of its \<open>try\<close>,
  and the \<open>catch\<close> is the \<open>Inl\<close> branch in \<open>transformTree\<close>. The tree is mutated in
  place; the function returns it as it is afterwards.
\<close>

function transformTree :: "block list \<Rightarrow> 'w handler list \<Rightarrow> 'w \<Rightarrow> thrown + block list \<times> 'w"
  and tryBlock :: "block \<Rightarrow> 'w handler list \<Rightarrow> 'w \<Rightarrow> thrown + block \<times> 'w"
where
  "transformTree [] plugins w = Inr ([], w)"
| "transformTree (block # rest) plugins w =
     (case tryBlock block plugins w of
        Inl error \<Rightarrow>
          Inl (ErrorObject (''Transformation error: '' @ messageOf error
                 @ (case metadata block of
                      None \<Rightarrow> []
                    | Some m \<Rightarrow> '' @ line '' @ numberToString (line (start m)))))
      | Inr (block', w') \<Rightarrow>
          (case transformTree rest plugins w' of
             Inl e \<Rightarrow> Inl e
           | Inr (rest', w'') \<Rightarrow> Inr (block' # rest', w'')))"
| "tryBlock block plugins w =
     (case applyPlugins plugins (makeMutableBlock block) w of
        Inl e \<Rightarrow> Inl e
      | Inr (mutableBlock, w') \<Rightarrow>
          (case children mutableBlock of
             None \<Rightarrow> Inr (mutableBlock, w')
           | Some cs \<Rightarrow>
               (case transformTree cs plugins w' of
                  Inl e \<Rightarrow> Inl e
                | Inr (cs', w'') \<Rightarrow>
                    Inr (Block (selectors mutableBlock) (properties mutableBlock)
                           (Some cs') (metadata mutableBlock), w''))))"
  by pat_completeness auto

termination
proof (relation "measure (\<lambda>x. case x of
          Inl (tree, plugins, w) \<Rightarrow> 2 * size_list size tree
        | Inr (block, plugins, w) \<Rightarrow> 2 * size block + 1)")
  fix block :: block and plugins :: "'w handler list" and w :: 'w
    and x :: "block \<times> 'w" and mutableBlock w' cs
  assume "applyPlugins plugins (makeMutableBlock block) w = Inr x"
    and "(mutableBlock, w') = x" and "children mutableBlock = Some cs"
  then have "children block = Some cs"
    using applyPlugins_children [of plugins "makeMutableBlock block" w mutableBlock w']
    by (simp add: makeMutableBlock_def)
  from size_children [OF this]
  show "(Inl (cs, plugins, w'), Inr (block, plugins, w)) \<in> measure (\<lambda>x. case x of
          Inl (tree, plugins, w) \<Rightarrow> 2 * size_list size tree
        | Inr (block, plugins, w) \<Rightarrow> 2 * size block + 1)"
    by simp
qed auto

section \<open>Parser\<close>

text \<open>
  The parser holds every open block twice, on \<open>state.stack\<close> and in the tree (in
  \<open>state.tree\<close> or in the \<open>children\<close> of its parent), and mutates it through the stack.
  So the blocks live in a store, \<open>heap\<close>: a block is the index of its object there,
  and the tree, the stack and every \<open>children\<close> array hold indices.
\<close>

record blockObject =
  objSelectors :: "string list"
  objProperties :: "property list option"
  objChildren :: "nat list option"
  objMetadata :: metadata

record ParserState =
  buffer :: string
  stack :: "nat list"
  selectorStack :: "string list"
  tree :: "nat list"
  isStringLiteral :: bool
  isAtRule :: bool
  isNestedSelector :: bool
  isCustomProperty :: bool
  currentParenthesisLevel :: int
  currentPropertyName :: string
  currentLine :: nat
  currentColumn :: nat
  heap :: "blockObject list"

text \<open>
  \<open>String.prototype.trim\<close> removes white space and line terminators from both ends;
  among the code units below 256 these are tab, line feed, vertical tab, form feed,
  carriage return, space and the no-break space.
\<close>

definition isWhiteSpace :: "char \<Rightarrow> bool" where
  "isWhiteSpace c = (c \<in> set [CHR 0x09, CHR 0x0A, CHR 0x0B, CHR 0x0C, CHR 0x0D, CHR 0x20, CHR 0xA0])"

definition trim :: "string \<Rightarrow> string" where
  "trim s = rev (dropWhile isWhiteSpace (rev (dropWhile isWhiteSpace s)))"

text \<open>
  Modelled from the spec: the class \<open>ParsingError\<close> is declared in the parser's index
  module, which is not among the sources; the spec gives it a message and the line and
  column at the moment of failure.
\<close>

definition newParsingError :: "string \<Rightarrow> ParserState \<Rightarrow> error" where
  "newParsingError message state = ParsingError message (currentLine state) (currentColumn state)"

definition handleOpeningBrace :: "ParserState \<Rightarrow> error + ParserState" where
  "handleOpeningBrace state =
     (let selector = trim (buffer state)
      in if length selector = 0 then Inl (newParsingError ''Unexpected opening brace'' state)
         else
           let block = \<lparr>objSelectors = selectorStack state @ [selector],
                        objProperties = None, objChildren = None,
                        objMetadata = \<lparr>start = \<lparr>line = currentLine state,
                                                 column = currentColumn state\<rparr>,
                                       finish = None\<rparr>\<rparr>
           in if length (objSelectors block) > 1
                 \<and> list_ex (\<lambda>s. startsWith s ''@'') (objSelectors block)
              then Inl (newParsingError ''At-rule mixed with other selectors'' state)
              else
                let ref = length (heap state);
                    allocated = state\<lparr>heap := heap state @ [block]\<rparr>;
                    attached =
                      (if length (stack state) > 0 then
                         let parent = stack state ! (length (stack state) - 1);
                             parentObject = heap allocated ! parent
                         in allocated\<lparr>heap := (heap allocated)[parent :=
                              parentObject\<lparr>objChildren :=
                                (case objChildren parentObject of
                                   Some cs \<Rightarrow> Some (cs @ [ref])
                                 | None \<Rightarrow> Some [ref])\<rparr>]\<rparr>
                       else allocated\<lparr>tree := tree state @ [ref]\<rparr>)
                in Inr (attached\<lparr>stack := stack state @ [ref], selectorStack := [],
                                   isNestedSelector := False, buffer := []\<rparr>))"

definition handleClosingBrace :: "ParserState \<Rightarrow> error + ParserState" where
  "handleClosingBrace state =
     (if length (stack state) = 0 \<or> currentPropertyName state \<noteq> [] then
        Inl (newParsingError ''Unexpected closing brace'' state)
      else
        let block = last (stack state);
            blockObject = heap state ! block
        in Inr (state\<lparr>stack := butlast (stack state),
                       heap := (heap state)[block :=
                         blockObject\<lparr>objMetadata := (objMetadata blockObject)
                           \<lparr>finish := Some \<lparr>line = currentLine state,
                                             column = currentColumn state\<rparr>\<rparr>\<rparr>],
                       buffer := []\<rparr>))"

definition handleSemicolon :: "ParserState \<Rightarrow> error + ParserState" where
  "handleSemicolon state =
     (if isStringLiteral state then Inr (state\<lparr>buffer := buffer state @ '';''\<rparr>)
      else
        let v = trim (buffer state)
        in if currentPropertyName state = [] \<or> v = [] then
             Inl (newParsingError ''Unexpected semicolon (expected property declaration)'' state)
           else if stack state = [] then
             Inl (newParsingError ''Unexpected semicolon (outside block)'' state)
           else
             let currentBlock = stack state ! (length (stack state) - 1);
                 blockObject = heap state ! currentBlock;
                 property = \<lparr>key = currentPropertyName state, val = v\<rparr>
             in Inr (state\<lparr>heap := (heap state)[currentBlock :=
                              blockObject\<lparr>objProperties :=
                                (case objProperties blockObject of
                                   None \<Rightarrow> Some [property]
                                 | Some ps \<Rightarrow> Some (ps @ [property]))\<rparr>],
                            currentPropertyName := [], isCustomProperty := False,
                            buffer := []\<rparr>))"

definition handleColon :: "ParserState \<Rightarrow> error + ParserState" where
  "handleColon state =
     (if isAtRule state \<or> isStringLiteral state \<or> isNestedSelector state
         \<or> length (stack state) = 0 then
        Inr (state\<lparr>buffer := buffer state @ '':''\<rparr>)
      else if currentPropertyName state \<noteq> [] \<and> \<not> isCustomProperty state then
        Inl (newParsingError ''Unexpected colon (expected property value)'' state)
      else
        Inr (state\<lparr>currentPropertyName := trim (buffer state),
                    isCustomProperty := startsWith (trim (buffer state)) ''!'',
                    buffer := []\<rparr>))"

definition handleComma :: "ParserState \<Rightarrow> error + ParserState" where
  "handleComma state =
     (if isStringLiteral state \<or> currentPropertyName state \<noteq> []
         \<or> currentParenthesisLevel state > 0 then
        Inr (state\<lparr>buffer := buffer state @ '',''\<rparr>)
      else if \<not> isCustomProperty state \<and> currentParenthesisLevel state = 0 then
        (let selector = trim (buffer state)
         in if selector = [] then
              Inl (newParsingError ''Unexpected comma (expected selector)'' state)
            else Inr (state\<lparr>selectorStack := selectorStack state @ [selector], buffer := []\<rparr>))
      else Inr state)"

definition handleAmpersand :: "ParserState \<Rightarrow> error + ParserState" where
  "handleAmpersand state =
     (let appended = state\<lparr>buffer := buffer state @ ''&''\<rparr>
      in if \<not> isCustomProperty state \<and> \<not> isStringLiteral state then
           Inr (appended\<lparr>isNestedSelector := True\<rparr>)
         else Inr appended)"

definition handleAtSign :: "ParserState \<Rightarrow> error + ParserState" where
  "handleAtSign state =
     (let appended = state\<lparr>buffer := buffer state @ ''@''\<rparr>
      in if \<not> isCustomProperty state then Inr (appended\<lparr>isAtRule := True\<rparr>)
         else Inr appended)"

definition handleDoubleQuote :: "ParserState \<Rightarrow> error + ParserState" where
  "handleDoubleQuote state =
     (let appended = state\<lparr>buffer := buffer state @ [CHR 0x22]\<rparr>
      in if \<not> isCustomProperty state then
           (if isStringLiteral state then
              Inr (appended\<lparr>isStringLiteral :=
                     (2 \<le> length (buffer appended)
                      \<and> buffer appended ! (length (buffer appended) - 2) = CHR 0x5C)\<rparr>)
            else Inr (appended\<lparr>isStringLiteral := True\<rparr>))
         else Inr appended)"

definition handleOpeningParenthesis :: "ParserState \<Rightarrow> error + ParserState" where
  "handleOpeningParenthesis state =
     (let appended = state\<lparr>buffer := buffer state @ ''(''\<rparr>
      in if \<not> isCustomProperty state \<and> \<not> isStringLiteral state then
           Inr (appended\<lparr>currentParenthesisLevel := currentParenthesisLevel state + 1\<rparr>)
         else Inr appended)"

definition handleClosingParenthesis :: "ParserState \<Rightarrow> error + ParserState" where
  "handleClosingParenthesis state =
     (let appended = state\<lparr>buffer := buffer state @ '')''\<rparr>
      in if \<not> isCustomProperty state \<and> \<not> isStringLiteral state then
           Inr (appended\<lparr>currentParenthesisLevel := currentParenthesisLevel state - 1\<rparr>)
         else Inr appended)"

text \<open>
  Modelled from the spec: the scan loop is in the parser's index module, which is not
  among the sources. The spec has it read the source from left to right; a special
  character goes to its handler, any other character is appended to the buffer, and the
  loop keeps the position: a line break resets the column to 0 and increments the line.
  A fresh state is empty, with every flag off and the parenthesis level 0.
\<close>

definition initialState :: ParserState where
  "initialState =
     \<lparr>buffer = [], stack = [], selectorStack = [], tree = [],
      isStringLiteral = False, isAtRule = False, isNestedSelector = False,
      isCustomProperty = False, currentParenthesisLevel = 0, currentPropertyName = [],
      currentLine = 1, currentColumn = 0, heap = []\<rparr>"

definition advancePosition :: "char \<Rightarrow> ParserState \<Rightarrow> ParserState" where
  "advancePosition c state =
     (if c = CHR 0x0A then state\<lparr>currentLine := currentLine state + 1, currentColumn := 0\<rparr>
      else state\<lparr>currentColumn := currentColumn state + 1\<rparr>)"

definition dispatch :: "char \<Rightarrow> ParserState \<Rightarrow> error + ParserState" where
  "dispatch c state =
     (if c = CHR ''{'' then handleOpeningBrace state
      else if c = CHR ''}'' then handleClosingBrace state
      else if c = CHR '';'' then handleSemicolon state
      else if c = CHR '':'' then handleColon state
      else if c = CHR '','' then handleComma state
      else if c = CHR ''&'' then handleAmpersand state
      else if c = CHR ''@'' then handleAtSign state
      else if c = CHR 0x22 then handleDoubleQuote state
      else if c = CHR ''('' then handleOpeningParenthesis state
      else if c = CHR '')'' then handleClosingParenthesis state
      else Inr (state\<lparr>buffer := buffer state @ [c]\<rparr>))"

fun scanSource :: "string \<Rightarrow> ParserState \<Rightarrow> error + ParserState" where
  "scanSource [] state = Inr state"
| "scanSource (c # cs) state =
     (case dispatch c (advancePosition c state) of
        Inl e \<Rightarrow> Inl e
      | Inr state' \<Rightarrow> scanSource cs state')"

section \<open>Specification-side definitions\<close>

text \<open>
  The blocks of a tree in pre-order: a block, then the blocks of its children from
  first to last, then the blocks that follow it.
\<close>

fun preorder :: "block \<Rightarrow> block list"
  and preorderList :: "block list \<Rightarrow> block list"
where
  "preorder (Block sels props ch md) =
     Block sels props ch md # (case ch of None \<Rightarrow> [] | Some cs \<Rightarrow> preorderList cs)"
| "preorderList [] = []"
| "preorderList (b # bs) = preorder b @ preorderList bs"



text \<open>
  What building a view of every block leaves behind: each block of the tree has a
  properties list, empty where there was none.
\<close>

fun withProperties :: "block \<Rightarrow> block" where
  "withProperties (Block sels props ch md) =
     Block sels (Some (case props of None \<Rightarrow> [] | Some ps \<Rightarrow> ps))
       (map_option (map withProperties) ch) md"

text \<open>A handler's script that calls none of the view's mutating closures.\<close>

primrec readOnly :: "'w action \<Rightarrow> bool" where
  "readOnly (Return w) = True"
| "readOnly (Throw e) = True"
| "readOnly (HasChildren k) = (\<forall>x. readOnly (k x))"
| "readOnly (GetSelectors k) = (\<forall>x. readOnly (k x))"
| "readOnly (SetSelectors newSelectors a) = False"
| "readOnly (HasProperty name k) = (\<forall>x. readOnly (k x))"
| "readOnly (GetProperty name k) = (\<forall>x. readOnly (k x))"
| "readOnly (GetProperties k) = (\<forall>x. readOnly (k x))"
| "readOnly (SetProperty name v a) = False"
| "readOnly (RemoveProperty name a) = False"

text \<open>
  The store is closed: the tree, the stack and every \<open>children\<close> array refer to block
  objects that are in the store.
\<close>

definition refsValid :: "ParserState \<Rightarrow> bool" where
  "refsValid state =
     ((\<forall>r\<in>set (tree state). r < length (heap state))
      \<and> (\<forall>r\<in>set (stack state). r < length (heap state))
      \<and> (\<forall>obj\<in>set (heap state). \<forall>cs. objChildren obj = Some cs \<longrightarrow>
            (\<forall>r\<in>set cs. r < length (heap state))))"

text \<open>
  The invariant of the spec's data model on a selector list: it is not empty, and with
  more than one entry none of them starts with \<open>@\<close>.
\<close>

definition selectorsWellFormed :: "string list \<Rightarrow> bool" where
  "selectorsWellFormed sels =
     (sels \<noteq> [] \<and> (length sels > 1 \<longrightarrow> (\<forall>s\<in>set sels. \<not> startsWith s ''@'')))"

text \<open>What every state of a parse satisfies.\<close>

definition parserInv :: "ParserState \<Rightarrow> bool" where
  "parserInv state =
     ((\<forall>obj\<in>set (heap state). selectorsWellFormed (objSelectors obj)) \<and> refsValid state)"

text \<open>
  The combination of a selector with a parent as the spec words it: every \<open>&\<close> of the
  selector is replaced by the parent, and a selector without \<open>&\<close> follows the parent
  after a single space. The selector list of an ordinary rule is the cross product
  with the parents, or the block's own selectors when there are no parents.
\<close>

definition combineSelector :: "string \<Rightarrow> string \<Rightarrow> string" where
  "combineSelector selector parent =
     (if CHR ''&'' \<in> set selector
      then concat (map (\<lambda>c. if c = CHR ''&'' then parent else [c]) selector)
      else parent @ '' '' @ selector)"

definition crossProduct :: "string list \<Rightarrow> string list \<Rightarrow> string list" where
  "crossProduct sels parents =
     (if parents = [] then sels
      else concat (map (\<lambda>selector. map (\<lambda>parent. combineSelector selector parent) parents) sels))"

text \<open>
  The first parenthesised group of a prelude: from its first \<open>(\<close> up to the first \<open>)\<close>
  after it.
\<close>

definition firstGroup :: "string \<Rightarrow> string" where
  "firstGroup s =
     CHR ''('' # takeWhile (\<lambda>c. c \<noteq> CHR '')'') (tl (dropWhile (\<lambda>c. c \<noteq> CHR ''('') s)) @ '')''"

text \<open>
  The final assembly as the spec words it: a context without fragments is left out,
  the fragments of \<open>root\<close> stand as they are, any other context wraps its fragments in
  braces after its name.
\<close>

definition emitContext :: "string \<times> string list \<Rightarrow> string" where
  "emitContext entry =
     (if snd entry = [] then []
      else if fst entry = ''root'' then concat (snd entry)
      else fst entry @ ''{'' @ concat (snd entry) @ ''}'')"

text \<open>
  A render state that continues another: the contexts of the first are the first
  contexts of the second, in the same order, and each keeps its fragments as the first
  fragments of what it has in the second.
\<close>

definition stateExtends :: "RenderState \<Rightarrow> RenderState \<Rightarrow> bool" where
  "stateExtends state state' =
     (prefix (map fst state) (map fst state')
      \<and> (\<forall>c frs. map_of state c = Some frs \<longrightarrow> (\<exists>more. map_of state' c = Some (frs @ more))))"

text \<open>
  The fragment a block contributes itself when it is rendered with the selector list
  \<open>sels\<close>: none without properties, else one, the selectors joined by commas and the
  properties, as \<open>key:value\<close> joined by semicolons, in braces. And the fragments a
  context has in a render state, none when it is not there.
\<close>

definition ownFragments :: "string list \<Rightarrow> block \<Rightarrow> string list" where
  "ownFragments sels b =
     (case properties b of
        None \<Rightarrow> []
      | Some ps \<Rightarrow>
          if ps = [] then []
          else [join sels '','' @ ''{'' @ join (map (\<lambda>p. key p @ '':'' @ val p) ps) '';'' @ ''}''])"

definition fragmentsOf :: "RenderState \<Rightarrow> string \<Rightarrow> string list" where
  "fragmentsOf state c = (case map_of state c of None \<Rightarrow> [] | Some frs \<Rightarrow> frs)"

text \<open>
  The selector list a block is rendered with, by the rule that applies to it: the
  inherited parents for a responsive media query and for a color-scheme at-rule, none
  for any other at-rule, and for an ordinary rule its own selectors, each combined with
  every parent when there are parents.
\<close>

definition renderedSelectors :: "block \<Rightarrow> string list \<Rightarrow> string list" where
  "renderedSelectors b parents =
     (case selectors b of
        [] \<Rightarrow> []
      | first # _ \<Rightarrow>
          if startsWith first ''@media screen''
             \<or> (startsWith first ''@media'' \<and> includes_str first ''-color-scheme'')
          then parents
          else if startsWith first ''@'' then []
          else concat (map (\<lambda>selector.
                 if parents = [] then [selector]
                 else map (\<lambda>parent. renderSelector selector parent) parents)
                 (selectors b)))"

section \<open>The mutable view's property operations\<close>

lemma find_first_match:
  "\<forall>q\<in>set pre. key q \<noteq> k \<Longrightarrow> key p = k \<Longrightarrow>
   find (\<lambda>p. key p = k) (pre @ p # post) = Some p"
  by (induction pre) auto

lemma find_no_match:
  "\<forall>q\<in>set ps. key q \<noteq> k \<Longrightarrow> find (\<lambda>p. key p = k) ps = None"
  by (induction ps) auto

lemma assignFirst_first_match:
  "\<forall>q\<in>set pre. key q \<noteq> k \<Longrightarrow> key p = k \<Longrightarrow>
   assignFirst (pre @ p # post) k v = pre @ p\<lparr>val := v\<rparr> # post"
  by (induction pre) auto

lemma assignFirst_other_keys:
  "filter (\<lambda>p. key p \<noteq> k) (assignFirst ps k v) = filter (\<lambda>p. key p \<noteq> k) ps"
  by (induction ps) auto

lemma find_assignFirst_same:
  "find (\<lambda>p. key p = k) ps = Some p \<Longrightarrow>
   find (\<lambda>p. key p = k) (assignFirst ps k v) = Some (p\<lparr>val := v\<rparr>)"
  by (induction ps) (auto split: if_splits)

lemma find_assignFirst_other:
  "k' \<noteq> k \<Longrightarrow>
   map_option val (find (\<lambda>p. key p = k') (assignFirst ps k v))
     = map_option val (find (\<lambda>p. key p = k') ps)"
  by (induction ps) auto

lemma find_append_other:
  "k' \<noteq> k \<Longrightarrow>
   find (\<lambda>p. key p = k') (ps @ [\<lparr>key = k, val = v\<rparr>]) = find (\<lambda>p. key p = k') ps"
  by (induction ps) auto

lemma find_append_same:
  "find (\<lambda>p. key p = k) ps = None \<Longrightarrow>
   find (\<lambda>p. key p = k) (ps @ [\<lparr>key = k, val = v\<rparr>]) = Some \<lparr>key = k, val = v\<rparr>"
  by (induction ps) (auto split: if_splits)

lemma find_filter_same:
  "find (\<lambda>p. key p = k) (filter (\<lambda>p. key p \<noteq> k) ps) = None"
  by (induction ps) auto

lemma find_filter_other:
  "k' \<noteq> k \<Longrightarrow>
   find (\<lambda>p. key p = k') (filter (\<lambda>p. key p \<noteq> k) ps) = find (\<lambda>p. key p = k') ps"
  by (induction ps) auto

lemma getProperty_setProperty_same: "getProperty (setProperty b k v) k = Some v"
  by (cases "find (\<lambda>p. key p = k) (propertiesOf b)")
     (simp_all add: getProperty_def setProperty_def propertiesOf_def
        find_append_same find_assignFirst_same)

lemma getProperty_setProperty_other:
  "k' \<noteq> k \<Longrightarrow> getProperty (setProperty b k v) k' = getProperty b k'"
  by (cases "find (\<lambda>p. key p = k) (propertiesOf b)")
     (simp_all add: getProperty_def setProperty_def propertiesOf_def
        find_append_other find_assignFirst_other)

lemma setProperty_other_entries:
  "filter (\<lambda>p. key p \<noteq> k) (propertiesOf (setProperty b k v))
     = filter (\<lambda>p. key p \<noteq> k) (propertiesOf b)"
  by (cases "find (\<lambda>p. key p = k) (propertiesOf b)")
     (simp_all add: setProperty_def propertiesOf_def assignFirst_other_keys)

text \<open>
  Claim C5. On a block behind a view, whose properties may repeat a key:
  \<open>getProperty\<close> returns the value of the first entry with the key, and nothing when
  no entry has it; \<open>setProperty\<close> assigns the value of the first entry with the key
  and leaves the list otherwise as it is, and appends a new entry only when no entry
  has the key; \<open>removeProperty\<close> removes every entry with the key and keeps the
  others in their order. The block returned is the block the next call sees, so a
  value set is the value read back and a key removed is absent; reads of any other key
  are unchanged, and so are the selectors, the children and the metadata.
\<close>

theorem view_property_operations:
  assumes "properties b = Some ps"
  shows "((\<forall>q\<in>set ps. key q \<noteq> k) \<longrightarrow>
            getProperty b k = None
          \<and> properties (setProperty b k v) = Some (ps @ [\<lparr>key = k, val = v\<rparr>]))
       \<and> (\<forall>pre p post. ps = pre @ p # post \<and> (\<forall>q\<in>set pre. key q \<noteq> k) \<and> key p = k \<longrightarrow>
            getProperty b k = Some (val p)
          \<and> properties (setProperty b k v) = Some (pre @ p\<lparr>val := v\<rparr> # post))
       \<and> properties (removeProperty b k) = Some (filter (\<lambda>p. key p \<noteq> k) ps)
       \<and> getProperty (setProperty b k v) k = Some v
       \<and> getProperty (removeProperty b k) k = None
       \<and> (\<forall>k'. k' \<noteq> k \<longrightarrow>
            getProperty (setProperty b k v) k' = getProperty b k'
          \<and> getProperty (removeProperty b k) k' = getProperty b k')
       \<and> filter (\<lambda>p. key p \<noteq> k) (propertiesOf (setProperty b k v)) = filter (\<lambda>p. key p \<noteq> k) ps
       \<and> selectors (setProperty b k v) = selectors b
       \<and> children (setProperty b k v) = children b
       \<and> metadata (setProperty b k v) = metadata b
       \<and> selectors (removeProperty b k) = selectors b
       \<and> children (removeProperty b k) = children b
       \<and> metadata (removeProperty b k) = metadata b"
proof -
  have po: "propertiesOf b = ps"
    using assms by (simp add: propertiesOf_def)
  have absent: "(\<forall>q\<in>set ps. key q \<noteq> k) \<longrightarrow>
            getProperty b k = None
          \<and> properties (setProperty b k v) = Some (ps @ [\<lparr>key = k, val = v\<rparr>])"
    by (simp add: getProperty_def setProperty_def po find_no_match)
  have present: "\<forall>pre p post. ps = pre @ p # post \<and> (\<forall>q\<in>set pre. key q \<noteq> k) \<and> key p = k \<longrightarrow>
            getProperty b k = Some (val p)
          \<and> properties (setProperty b k v) = Some (pre @ p\<lparr>val := v\<rparr> # post)"
    by (auto simp: getProperty_def setProperty_def po find_first_match assignFirst_first_match)
  have removed: "properties (removeProperty b k) = Some (filter (\<lambda>p. key p \<noteq> k) ps)"
    by (simp add: removeProperty_def po)
  have seen: "getProperty (removeProperty b k) k = None"
    by (simp add: getProperty_def removeProperty_def propertiesOf_def find_filter_same)
  have others: "\<forall>k'. k' \<noteq> k \<longrightarrow>
            getProperty (setProperty b k v) k' = getProperty b k'
          \<and> getProperty (removeProperty b k) k' = getProperty b k'"
    by (simp add: getProperty_setProperty_other)
       (simp add: getProperty_def removeProperty_def propertiesOf_def find_filter_other)
  have kept: "filter (\<lambda>p. key p \<noteq> k) (propertiesOf (setProperty b k v)) = filter (\<lambda>p. key p \<noteq> k) ps"
    using setProperty_other_entries [of k b v] by (simp add: po)
  have frame: "selectors (setProperty b k v) = selectors b"
    "children (setProperty b k v) = children b"
    "metadata (setProperty b k v) = metadata b"
    "selectors (removeProperty b k) = selectors b"
    "children (removeProperty b k) = children b"
    "metadata (removeProperty b k) = metadata b"
    by (simp_all add: setProperty_def removeProperty_def split: option.splits)
  show ?thesis
    using absent present removed getProperty_setProperty_same [of b k v] seen others kept frame
    by blast
qed

text \<open>
  The operations on a block whose properties are \<open>x:1\<close>, \<open>y:2\<close>, \<open>x:3\<close>.
\<close>

theorem view_property_operations_witness:
  "getProperty (Block [''a''] (Some [\<lparr>key = ''x'', val = ''1''\<rparr>, \<lparr>key = ''y'', val = ''2''\<rparr>,
        \<lparr>key = ''x'', val = ''3''\<rparr>]) None None) ''x'' = Some ''1''
   \<and> properties (setProperty (Block [''a''] (Some [\<lparr>key = ''x'', val = ''1''\<rparr>,
        \<lparr>key = ''y'', val = ''2''\<rparr>, \<lparr>key = ''x'', val = ''3''\<rparr>]) None None) ''x'' ''9'')
       = Some [\<lparr>key = ''x'', val = ''9''\<rparr>, \<lparr>key = ''y'', val = ''2''\<rparr>, \<lparr>key = ''x'', val = ''3''\<rparr>]
   \<and> properties (removeProperty (Block [''a''] (Some [\<lparr>key = ''x'', val = ''1''\<rparr>,
        \<lparr>key = ''y'', val = ''2''\<rparr>, \<lparr>key = ''x'', val = ''3''\<rparr>]) None None) ''x'')
       = Some [\<lparr>key = ''y'', val = ''2''\<rparr>]
   \<and> getProperty (Block [''a''] (Some [\<lparr>key = ''x'', val = ''1''\<rparr>, \<lparr>key = ''y'', val = ''2''\<rparr>,
        \<lparr>key = ''x'', val = ''3''\<rparr>]) None None) ''z'' = None
   \<and> properties (setProperty (Block [''a''] (Some [\<lparr>key = ''x'', val = ''1''\<rparr>,
        \<lparr>key = ''y'', val = ''2''\<rparr>, \<lparr>key = ''x'', val = ''3''\<rparr>]) None None) ''z'' ''9'')
       = Some [\<lparr>key = ''x'', val = ''1''\<rparr>, \<lparr>key = ''y'', val = ''2''\<rparr>, \<lparr>key = ''x'', val = ''3''\<rparr>,
               \<lparr>key = ''z'', val = ''9''\<rparr>]
   \<and> getProperty (setProperty (Block [''a''] (Some [\<lparr>key = ''x'', val = ''1''\<rparr>,
        \<lparr>key = ''y'', val = ''2''\<rparr>, \<lparr>key = ''x'', val = ''3''\<rparr>]) None None) ''x'' ''9'') ''y''
       = Some ''2''"
proof -
  let ?ps = "[\<lparr>key = ''x'', val = ''1''\<rparr>, \<lparr>key = ''y'', val = ''2''\<rparr>, \<lparr>key = ''x'', val = ''3''\<rparr>]"
  let ?b = "Block [''a''] (Some ?ps) None None"
  have h: "properties ?b = Some ?ps" by simp
  note x = view_property_operations [OF h, of "''x''" "''9''"]
  note z = view_property_operations [OF h, of "''z''" "''9''"]
  have present: "getProperty ?b ''x'' = Some (val \<lparr>key = ''x'', val = ''1''\<rparr>)
      \<and> properties (setProperty ?b ''x'' ''9'')
          = Some ([] @ \<lparr>key = ''x'', val = ''1''\<rparr>\<lparr>val := ''9''\<rparr> # [\<lparr>key = ''y'', val = ''2''\<rparr>, \<lparr>key = ''x'', val = ''3''\<rparr>])"
    by (rule x [THEN conjunct2, THEN conjunct1, rule_format,
          of "[]" "\<lparr>key = ''x'', val = ''1''\<rparr>"
             "[\<lparr>key = ''y'', val = ''2''\<rparr>, \<lparr>key = ''x'', val = ''3''\<rparr>]"]) simp
  have removed: "properties (removeProperty ?b ''x'') = Some (filter (\<lambda>p. key p \<noteq> ''x'') ?ps)"
    by (rule x [THEN conjunct2, THEN conjunct2, THEN conjunct1])
  have absent: "getProperty ?b ''z'' = None
      \<and> properties (setProperty ?b ''z'' ''9'') = Some (?ps @ [\<lparr>key = ''z'', val = ''9''\<rparr>])"
    by (rule z [THEN conjunct1, rule_format]) auto
  have "getProperty (setProperty ?b ''x'' ''9'') ''y'' = getProperty ?b ''y''"
    by (rule x [THEN conjunct2, THEN conjunct2, THEN conjunct2, THEN conjunct2,
          THEN conjunct2, THEN conjunct1, rule_format, THEN conjunct1]) simp
  also have "getProperty ?b ''y'' = Some ''2''"
    by (simp add: getProperty_def propertiesOf_def)
  finally have other: "getProperty (setProperty ?b ''x'' ''9'') ''y'' = Some ''2''" .
  from present removed absent other show ?thesis by simp
qed

section \<open>The transformer's walk\<close>









lemma runAction_readOnly:
  "readOnly a \<Longrightarrow> runAction a b = Inr (b', w') \<Longrightarrow> b' = b"
  by (induction a arbitrary: b) auto

lemma applyPlugins_readOnly:
  "\<forall>p\<in>set plugins. \<forall>w. readOnly (p w) \<Longrightarrow> applyPlugins plugins b w = Inr (b', w') \<Longrightarrow> b' = b"
proof (induction plugins arbitrary: b w)
  case Nil
  then show ?case by simp
next
  case (Cons p plugins)
  show ?case
  proof (cases "runAction (p w) b")
    case (Inl e)
    with Cons.prems(2) show ?thesis by simp
  next
    case (Inr r)
    obtain b1 w1 where r: "r = (b1, w1)" by (cases r)
    from Cons.prems(1) have "readOnly (p w)" by simp
    from runAction_readOnly [OF this] Inr r have "b1 = b" by simp
    with Cons.IH [of b w1] Cons.prems Inr r show ?thesis by simp
  qed
qed

lemma withProperties_unfold:
  "withProperties b =
     Block (selectors b) (Some (case properties b of None \<Rightarrow> [] | Some ps \<Rightarrow> ps))
       (map_option (map withProperties) (children b)) (metadata b)"
  by (cases b) simp

lemma transform_readOnly:
  fixes plugins :: "'w handler list"
  shows "\<forall>p\<in>set plugins. \<forall>w. readOnly (p w) \<Longrightarrow>
           transformTree blocks plugins w = Inr (blocks', w') \<Longrightarrow>
           blocks' = map withProperties blocks"
    and "\<forall>p\<in>set plugins. \<forall>w. readOnly (p w) \<Longrightarrow>
           tryBlock block plugins w = Inr (b', w') \<Longrightarrow> b' = withProperties block"
proof (induction blocks plugins w and block plugins w arbitrary: blocks' w' and b' w'
    rule: transformTree_tryBlock.induct)
  case (1 plugins w)
  then show ?case by simp
next
  case (2 block rest plugins w)
  from "2.prems"(2) obtain b1 w1 rest1 where
    t: "tryBlock block plugins w = Inr (b1, w1)"
    and r: "transformTree rest plugins w1 = Inr (rest1, w')"
    and eq: "blocks' = b1 # rest1"
    by (auto split: sum.splits)
  from "2.IH"(1) [OF "2.prems"(1) t] have "b1 = withProperties block" .
  moreover from "2.IH"(2) [OF t refl "2.prems"(1) r] have "rest1 = map withProperties rest" .
  ultimately show ?case using eq by simp
next
  case (3 block plugins w)
  from "3.prems"(2) obtain mb w1 where
    a: "applyPlugins plugins (makeMutableBlock block) w = Inr (mb, w1)"
    by (auto split: sum.splits)
  from applyPlugins_readOnly [OF "3.prems"(1) a] have mb: "mb = makeMutableBlock block" .
  show ?case
  proof (cases "children mb")
    case None
    with "3.prems"(2) a mb show ?thesis
      by (simp add: withProperties_unfold [of block] makeMutableBlock_def)
  next
    case (Some cs)
    from "3.prems"(2) a Some obtain cs1 where
      c: "transformTree cs plugins w1 = Inr (cs1, w')"
      and eq: "b' = Block (selectors mb) (properties mb) (Some cs1) (metadata mb)"
      by (auto split: sum.splits)
    from "3.IH" [OF a refl Some "3.prems"(1) c] have "cs1 = map withProperties cs" .
    with eq mb Some show ?thesis
      by (simp add: withProperties_unfold [of block] makeMutableBlock_def)
  qed
qed

lemma transform_no_plugins:
  "transformTree blocks ([] :: 'w handler list) w = Inr (map withProperties blocks, w)"
  "tryBlock block ([] :: 'w handler list) w = Inr (withProperties block, w)"
proof (induction blocks "[] :: 'w handler list" w and block "[] :: 'w handler list" w
    rule: transformTree_tryBlock.induct)
  case (1 w)
  show ?case by simp
next
  case (2 block rest w)
  from "2.hyps"(1) have t: "tryBlock block ([] :: 'w handler list) w = Inr (withProperties block, w)" .
  from "2.hyps"(2) [OF t refl] t show ?case by simp
next
  case (3 block w)
  have a: "applyPlugins ([] :: 'w handler list) (makeMutableBlock block) w
             = Inr (makeMutableBlock block, w)"
    by simp
  show ?case
  proof (cases "children block")
    case None
    then show ?thesis
      by (simp add: withProperties_unfold [of block] makeMutableBlock_def)
  next
    case (Some cs)
    then have "children (makeMutableBlock block) = Some cs"
      by (simp add: makeMutableBlock_def)
    from "3.hyps" [OF a refl this] Some show ?thesis
      by (simp add: withProperties_unfold [of block] makeMutableBlock_def)
  qed
qed

text \<open>
  Claim C9. Transforming is not a no-op on the representation, also with no handler:
  with an empty handler list, and with any handlers that call none of the view's
  mutating closures, the tree afterwards is the tree in which every block has a
  properties list, the empty one where the field was absent, and in which the
  selectors, the metadata and the children (up to the same change in them) are as
  before. A block without properties comes back with the empty list.
\<close>

theorem transform_sets_absent_properties:
  fixes plugins :: "'w handler list"
  shows "transformTree blocks ([] :: 'w handler list) w = Inr (map withProperties blocks, w)
       \<and> ((\<forall>p\<in>set plugins. \<forall>w. readOnly (p w))
            \<and> transformTree blocks plugins w = Inr (blocks', w') \<longrightarrow>
            blocks' = map withProperties blocks)
       \<and> properties (withProperties b) = Some (case properties b of None \<Rightarrow> [] | Some ps \<Rightarrow> ps)
       \<and> selectors (withProperties b) = selectors b
       \<and> metadata (withProperties b) = metadata b
       \<and> children (withProperties b) = map_option (map withProperties) (children b)
       \<and> transformTree [Block sels None None md] ([] :: 'w handler list) w
           = Inr ([Block sels (Some []) None md], w)"
proof -
  have "(\<forall>p\<in>set plugins. \<forall>w. readOnly (p w))
            \<and> transformTree blocks plugins w = Inr (blocks', w') \<longrightarrow>
            blocks' = map withProperties blocks"
    using transform_readOnly(1) [of plugins blocks w blocks' w'] by blast
  moreover have "transformTree [Block sels None None md] ([] :: 'w handler list) w
           = Inr ([Block sels (Some []) None md], w)"
    by (simp add: transform_no_plugins(1))
  ultimately show ?thesis
    using transform_no_plugins(1) [of blocks w]
    by (simp add: withProperties_unfold [of b])
qed

text \<open>
  A handler that only asks whether the block has children leaves, on a block without
  properties and its child with one property, exactly the empty list on the parent.
\<close>

theorem transform_sets_absent_properties_witness:
  "transformTree
     [Block [''a''] None (Some [Block [''b''] (Some [\<lparr>key = ''x'', val = ''1''\<rparr>]) None None]) None]
     [\<lambda>w. HasChildren (\<lambda>h. Return (w @ [h]))] []
   = Inr ([Block [''a''] (Some [])
             (Some [Block [''b''] (Some [\<lparr>key = ''x'', val = ''1''\<rparr>]) None None]) None],
          [True, False])"
proof -
  let ?t = "[Block [''a''] None (Some [Block [''b''] (Some [\<lparr>key = ''x'', val = ''1''\<rparr>]) None None]) None]"
  let ?p = "[\<lambda>w. HasChildren (\<lambda>h. Return (w @ [h]))] :: bool list handler list"
  obtain r where r: "transformTree ?t ?p [] = Inr (r, [True, False])"
    by (simp add: makeMutableBlock_def hasChildren_def)
  have ro: "\<forall>p\<in>set ?p. \<forall>w. readOnly (p w)" by simp
  from transform_sets_absent_properties [of ?t "[]" ?p r "[True, False]",
      THEN conjunct2, THEN conjunct1, THEN mp, OF conjI, OF ro r]
  have "r = map withProperties ?t" .
  with r show ?thesis by simp
qed

section \<open>The parser's invariants\<close>

lemma set_update_cases:
  "x \<in> set (xs[i := y]) \<Longrightarrow> x = y \<and> i < length xs \<or> x \<in> set xs"
proof (cases "i < length xs")
  case True
  assume "x \<in> set (xs[i := y])"
  with set_update_subset_insert [of xs i y] True show ?thesis by auto
next
  case False
  assume "x \<in> set (xs[i := y])"
  with False show ?thesis by (simp add: list_update_beyond not_less)
qed

lemma last_stack_valid:
  "refsValid state \<Longrightarrow> stack state \<noteq> [] \<Longrightarrow> last (stack state) < length (heap state)"
  by (simp add: refsValid_def)

lemma handleOpeningBrace_inv:
  assumes "parserInv state" and "handleOpeningBrace state = Inr state'"
  shows "parserInv state'"
proof -
  let ?sel = "trim (buffer state)"
  let ?sels = "selectorStack state @ [?sel]"
  from assms(2) have ne: "?sel \<noteq> []"
    by (auto simp: handleOpeningBrace_def Let_def split: if_splits)
  from assms(2) ne have ok: "\<not> (length ?sels > 1 \<and> list_ex (\<lambda>s. startsWith s ''@'') ?sels)"
    by (auto simp: handleOpeningBrace_def Let_def split: if_splits)
  then have wf: "selectorsWellFormed ?sels"
    by (auto simp: selectorsWellFormed_def list_ex_iff)
  from assms(1) have old: "\<forall>obj\<in>set (heap state). selectorsWellFormed (objSelectors obj)"
    and rv: "refsValid state"
    by (simp_all add: parserInv_def)
  show ?thesis
  proof (cases "stack state = []")
    case True
    with assms(2) ne ok have
      "state' = state\<lparr>heap := heap state @ [\<lparr>objSelectors = ?sels, objProperties = None,
           objChildren = None,
           objMetadata = \<lparr>start = \<lparr>line = currentLine state, column = currentColumn state\<rparr>,
                          finish = None\<rparr>\<rparr>],
         tree := tree state @ [length (heap state)],
         stack := stack state @ [length (heap state)], selectorStack := [],
         isNestedSelector := False, buffer := []\<rparr>"
      by (auto simp: handleOpeningBrace_def Let_def split: if_splits)
    with old rv wf True show ?thesis
      by (auto simp: parserInv_def refsValid_def less_Suc_eq)
  next
    case False
    let ?parent = "last (stack state)"
    let ?ref = "length (heap state)"
    let ?block = "\<lparr>objSelectors = ?sels, objProperties = None, objChildren = None,
           objMetadata = \<lparr>start = \<lparr>line = currentLine state, column = currentColumn state\<rparr>,
                          finish = None\<rparr>\<rparr>"
    let ?po = "(heap state @ [?block]) ! ?parent"
    let ?newparent = "?po\<lparr>objChildren :=
                                (case objChildren ?po of
                                   Some cs \<Rightarrow> Some (cs @ [?ref])
                                 | None \<Rightarrow> Some [?ref])\<rparr>"
    from False have lastidx: "stack state ! (length (stack state) - 1) = ?parent"
      by (simp add: last_conv_nth)
    from last_stack_valid [OF rv False] have pv: "?parent < length (heap state)" .
    then have po: "?po = heap state ! ?parent" by (simp add: nth_append)
    with pv have po_in: "?po \<in> set (heap state)" by simp
    from assms(2) ne ok False lastidx have st':
      "state' = state\<lparr>heap := (heap state @ [?block])[?parent := ?newparent],
         stack := stack state @ [?ref], selectorStack := [],
         isNestedSelector := False, buffer := []\<rparr>"
      by (auto simp: handleOpeningBrace_def Let_def split: if_splits)
    have h1: "\<forall>obj\<in>set (heap state'). selectorsWellFormed (objSelectors obj)"
    proof
      fix obj assume "obj \<in> set (heap state')"
      with st' have "obj \<in> set ((heap state @ [?block])[?parent := ?newparent])" by simp
      from set_update_cases [OF this] have "obj = ?newparent \<or> obj = ?block \<or> obj \<in> set (heap state)"
        by auto
      then show "selectorsWellFormed (objSelectors obj)"
        using old wf po_in by auto
    qed
    have len: "length (heap state') = Suc (length (heap state))"
      using st' by simp
    have h2: "refsValid state'"
      unfolding refsValid_def
    proof (intro conjI ballI allI impI)
      fix r assume "r \<in> set (tree state')"
      with st' rv show "r < length (heap state')" by (auto simp: refsValid_def less_Suc_eq)
    next
      fix r assume "r \<in> set (stack state')"
      with st' rv show "r < length (heap state')" by (auto simp: refsValid_def less_Suc_eq)
    next
      fix obj cs r
      assume o: "obj \<in> set (heap state')" and c: "objChildren obj = Some cs" and r: "r \<in> set cs"
      from o st' have "obj \<in> set ((heap state @ [?block])[?parent := ?newparent])" by simp
      from set_update_cases [OF this]
      consider "obj = ?newparent" | "obj = ?block" | "obj \<in> set (heap state)" by auto
      then have "r < Suc (length (heap state))"
      proof cases
        case 1
        with c r rv po_in show ?thesis
          by (cases "objChildren ?po") (auto simp: refsValid_def less_Suc_eq)
      next
        case 2
        with c show ?thesis by simp
      next
        case 3
        with c r rv show ?thesis by (auto simp: refsValid_def less_Suc_eq)
      qed
      with len show "r < length (heap state')" by simp
    qed
    from h1 h2 show ?thesis by (simp add: parserInv_def)
  qed
qed

lemma heap_update_inv:
  assumes "parserInv state" and "r < length (heap state)"
    and "objSelectors obj = objSelectors (heap state ! r)"
    and "objChildren obj = objChildren (heap state ! r)"
    and "heap state' = (heap state)[r := obj]"
    and "tree state' = tree state"
    and "set (stack state') \<subseteq> set (stack state)"
  shows "parserInv state'"
proof -
  from assms(1) have old: "\<forall>obj\<in>set (heap state). selectorsWellFormed (objSelectors obj)"
    and rv: "refsValid state"
    by (simp_all add: parserInv_def)
  from assms(2) have in_heap: "heap state ! r \<in> set (heap state)" by simp
  have mem: "o' = obj \<or> o' \<in> set (heap state)" if "o' \<in> set (heap state')" for o'
    using that set_update_cases [of o' "heap state" r obj] assms(5) by auto
  have "\<forall>o'\<in>set (heap state'). selectorsWellFormed (objSelectors o')"
  proof
    fix o' assume "o' \<in> set (heap state')"
    from mem [OF this] show "selectorsWellFormed (objSelectors o')"
    proof
      assume "o' = obj"
      with old in_heap assms(3) show ?thesis by simp
    next
      assume "o' \<in> set (heap state)"
      with old show ?thesis by simp
    qed
  qed
  moreover have "refsValid state'"
    unfolding refsValid_def
  proof (intro conjI ballI allI impI)
    fix x assume "x \<in> set (tree state')"
    with rv assms(5,6) show "x < length (heap state')" by (simp add: refsValid_def)
  next
    fix x assume "x \<in> set (stack state')"
    with rv assms(5,7) show "x < length (heap state')" by (auto simp: refsValid_def)
  next
    fix o' cs x
    assume o: "o' \<in> set (heap state')" and c: "objChildren o' = Some cs" and x: "x \<in> set cs"
    from mem [OF o] have "x < length (heap state)"
    proof
      assume "o' = obj"
      with c assms(4) have "objChildren (heap state ! r) = Some cs" by simp
      with rv in_heap x show ?thesis by (auto simp: refsValid_def)
    next
      assume "o' \<in> set (heap state)"
      with rv c x show ?thesis by (auto simp: refsValid_def)
    qed
    with assms(5) show "x < length (heap state')" by simp
  qed
  ultimately show ?thesis by (simp add: parserInv_def)
qed

lemma unchanged_heap_inv:
  assumes "parserInv state" and "heap state' = heap state" and "tree state' = tree state"
    and "stack state' = stack state"
  shows "parserInv state'"
  using assms by (simp add: parserInv_def refsValid_def)

lemma handleClosingBrace_inv:
  assumes "parserInv state" and "handleClosingBrace state = Inr state'"
  shows "parserInv state'"
proof -
  from assms(2) have ne: "stack state \<noteq> []"
    by (auto simp: handleClosingBrace_def split: if_splits)
  from assms(1) have rv: "refsValid state" by (simp add: parserInv_def)
  let ?r = "last (stack state)"
  let ?obj = "(heap state ! ?r)\<lparr>objMetadata := (objMetadata (heap state ! ?r))
                           \<lparr>finish := Some \<lparr>line = currentLine state,
                                             column = currentColumn state\<rparr>\<rparr>\<rparr>"
  from assms(2) ne have st': "state' = state\<lparr>stack := butlast (stack state),
        heap := (heap state)[?r := ?obj], buffer := []\<rparr>"
    by (auto simp: handleClosingBrace_def Let_def split: if_splits)
  show ?thesis
  proof (rule heap_update_inv [OF assms(1) last_stack_valid [OF rv ne], of ?obj])
    show "set (stack state') \<subseteq> set (stack state)"
      using st' by (auto dest: in_set_butlastD)
  qed (simp_all add: st')
qed

lemma handleSemicolon_inv:
  assumes "parserInv state" and "handleSemicolon state = Inr state'"
  shows "parserInv state'"
proof (cases "isStringLiteral state")
  case True
  with assms(2) have "state' = state\<lparr>buffer := buffer state @ '';''\<rparr>"
    by (simp add: handleSemicolon_def)
  with assms(1) show ?thesis by (simp add: unchanged_heap_inv)
next
  case False
  from assms(2) False have ne: "stack state \<noteq> []"
    by (auto simp: handleSemicolon_def Let_def split: if_splits)
  from assms(1) have rv: "refsValid state" by (simp add: parserInv_def)
  let ?r = "last (stack state)"
  let ?property = "\<lparr>key = currentPropertyName state, val = trim (buffer state)\<rparr>"
  let ?obj = "(heap state ! ?r)\<lparr>objProperties :=
                                (case objProperties (heap state ! ?r) of
                                   None \<Rightarrow> Some [?property]
                                 | Some ps \<Rightarrow> Some (ps @ [?property]))\<rparr>"
  from ne have lastidx: "stack state ! (length (stack state) - 1) = ?r"
    by (simp add: last_conv_nth)
  from assms(2) False ne lastidx have st': "state' = state\<lparr>heap := (heap state)[?r := ?obj],
        currentPropertyName := [], isCustomProperty := False, buffer := []\<rparr>"
    by (auto simp: handleSemicolon_def Let_def split: if_splits)
  show ?thesis
    by (rule heap_update_inv [OF assms(1) last_stack_valid [OF rv ne], of ?obj])
       (simp_all add: st')
qed

lemma dispatch_inv:
  assumes "parserInv state" and "dispatch c state = Inr state'"
  shows "parserInv state'"
proof -
  consider (ob) "c = CHR ''{''" | (cb) "c = CHR ''}''" | (sc) "c = CHR '';''"
    | (other) "c \<noteq> CHR ''{''" "c \<noteq> CHR ''}''" "c \<noteq> CHR '';''"
    by blast
  then show ?thesis
  proof cases
    case ob
    with assms show ?thesis by (simp add: dispatch_def handleOpeningBrace_inv)
  next
    case cb
    with assms show ?thesis by (simp add: dispatch_def handleClosingBrace_inv)
  next
    case sc
    with assms show ?thesis by (simp add: dispatch_def handleSemicolon_inv)
  next
    case other
    with assms(2) have "heap state' = heap state \<and> tree state' = tree state
        \<and> stack state' = stack state"
      by (auto simp: dispatch_def handleColon_def handleComma_def handleAmpersand_def
            handleAtSign_def handleDoubleQuote_def handleOpeningParenthesis_def
            handleClosingParenthesis_def Let_def
          split: if_splits)
    with assms(1) show ?thesis by (simp add: unchanged_heap_inv)
  qed
qed

lemma advancePosition_inv:
  assumes "parserInv state"
  shows "parserInv (advancePosition c state)"
  by (rule unchanged_heap_inv [OF assms]) (simp_all add: advancePosition_def)

lemma scanSource_inv:
  "parserInv state \<Longrightarrow> scanSource src state = Inr state' \<Longrightarrow> parserInv state'"
proof (induction src arbitrary: state)
  case Nil
  then show ?case by simp
next
  case (Cons c cs)
  from Cons.prems(2) obtain mid where
    d: "dispatch c (advancePosition c state) = Inr mid" and s: "scanSource cs mid = Inr state'"
    by (auto split: sum.splits)
  from dispatch_inv [OF advancePosition_inv [OF Cons.prems(1)] d] have "parserInv mid" .
  from Cons.IH [OF this s] show ?case .
qed

lemma initialState_inv: "parserInv initialState"
  by (simp add: parserInv_def refsValid_def initialState_def)

lemma handleOpeningBrace_accepts:
  assumes "trim (buffer st) \<noteq> []"
    and "\<not> (length (selectorStack st @ [trim (buffer st)]) > 1
            \<and> (\<exists>s\<in>set (selectorStack st @ [trim (buffer st)]). startsWith s ''@''))"
  shows "\<exists>st'. handleOpeningBrace st = Inr st'
           \<and> length (heap st') = Suc (length (heap st))
           \<and> objSelectors (heap st' ! length (heap st)) = selectorStack st @ [trim (buffer st)]
           \<and> last (stack st') = length (heap st)"
proof -
  from assms(2) have ok: "\<not> (length (selectorStack st @ [trim (buffer st)]) > 1
      \<and> list_ex (\<lambda>s. startsWith s ''@'') (selectorStack st @ [trim (buffer st)]))"
    by (simp add: list_ex_iff)
  show ?thesis
  proof (cases "stack st = []")
    case True
    with assms(1) ok show ?thesis
      by (simp add: handleOpeningBrace_def Let_def)
  next
    case False
    let ?parent = "stack st ! (length (stack st) - 1)"
    show ?thesis
    proof (cases "?parent = length (heap st)")
      case True
      with False assms(1) ok show ?thesis
        by (simp add: handleOpeningBrace_def Let_def)
    next
      case neq: False
      with False assms(1) ok show ?thesis
        by (simp add: handleOpeningBrace_def Let_def nth_list_update)
    qed
  qed
qed

text \<open>
  Claim C4. In every state a parse reaches, so in the tree of a successful parse, every
  block has a selector list that is not empty and that, when it has more than one
  entry, has no entry starting with \<open>@\<close>; the tree, the stack and the children refer
  only to such blocks. For that, the handler of \<open>{\<close> fails with
  \<open>Unexpected opening brace\<close> when the trimmed buffer is empty, fails with
  \<open>At-rule mixed with other selectors\<close> when the selector list it has put together has
  more than one entry and one of them starts with \<open>@\<close>, and otherwise opens a block
  with exactly that selector list.
\<close>

theorem parsed_blocks_selectors:
  "(scanSource src initialState = Inr state \<longrightarrow>
      (\<forall>obj\<in>set (heap state).
          objSelectors obj \<noteq> []
          \<and> (length (objSelectors obj) > 1 \<longrightarrow>
               (\<forall>s\<in>set (objSelectors obj). \<not> startsWith s ''@'')))
      \<and> refsValid state)
   \<and> (trim (buffer st) = [] \<longrightarrow>
        handleOpeningBrace st
          = Inl (ParsingError ''Unexpected opening brace'' (currentLine st) (currentColumn st)))
   \<and> (trim (buffer st) \<noteq> []
        \<and> length (selectorStack st @ [trim (buffer st)]) > 1
        \<and> (\<exists>s\<in>set (selectorStack st @ [trim (buffer st)]). startsWith s ''@'') \<longrightarrow>
        handleOpeningBrace st
          = Inl (ParsingError ''At-rule mixed with other selectors''
                   (currentLine st) (currentColumn st)))
   \<and> (trim (buffer st) \<noteq> []
        \<and> \<not> (length (selectorStack st @ [trim (buffer st)]) > 1
              \<and> (\<exists>s\<in>set (selectorStack st @ [trim (buffer st)]). startsWith s ''@'')) \<longrightarrow>
        (\<exists>st'. handleOpeningBrace st = Inr st'
           \<and> length (heap st') = Suc (length (heap st))
           \<and> objSelectors (heap st' ! length (heap st)) = selectorStack st @ [trim (buffer st)]
           \<and> last (stack st') = length (heap st)))"
proof (intro conjI impI)
  assume "scanSource src initialState = Inr state"
  from scanSource_inv [OF initialState_inv this]
  have inv: "parserInv state" .
  then show "refsValid state" by (simp add: parserInv_def)
  from inv show "\<forall>obj\<in>set (heap state).
          objSelectors obj \<noteq> []
          \<and> (length (objSelectors obj) > 1 \<longrightarrow>
               (\<forall>s\<in>set (objSelectors obj). \<not> startsWith s ''@''))"
    by (simp add: parserInv_def selectorsWellFormed_def)
next
  assume "trim (buffer st) = []"
  then show "handleOpeningBrace st
          = Inl (ParsingError ''Unexpected opening brace'' (currentLine st) (currentColumn st))"
    by (simp add: handleOpeningBrace_def newParsingError_def)
next
  assume "trim (buffer st) \<noteq> []
        \<and> length (selectorStack st @ [trim (buffer st)]) > 1
        \<and> (\<exists>s\<in>set (selectorStack st @ [trim (buffer st)]). startsWith s ''@'')"
  then show "handleOpeningBrace st
          = Inl (ParsingError ''At-rule mixed with other selectors''
                   (currentLine st) (currentColumn st))"
    by (simp add: handleOpeningBrace_def newParsingError_def Let_def list_ex_iff
         )
next
  assume "trim (buffer st) \<noteq> []
        \<and> \<not> (length (selectorStack st @ [trim (buffer st)]) > 1
              \<and> (\<exists>s\<in>set (selectorStack st @ [trim (buffer st)]). startsWith s ''@''))"
  then show "\<exists>st'. handleOpeningBrace st = Inr st'
           \<and> length (heap st') = Suc (length (heap st))
           \<and> objSelectors (heap st' ! length (heap st)) = selectorStack st @ [trim (buffer st)]
           \<and> last (stack st') = length (heap st)"
    using handleOpeningBrace_accepts [of st] by blast
qed

lemma parse_example:
  "case scanSource ''a, b{c{x:1;}}'' initialState of
     Inl e \<Rightarrow> False
   | Inr state \<Rightarrow> map objSelectors (heap state) = [[''a'', ''b''], [''c'']]
       \<and> tree state = [0] \<and> map objChildren (heap state) = [Some [1], None]"
  by code_simp

lemma open_example:
  "trim (buffer (initialState\<lparr>buffer := '' ''\<rparr>)) = []"
  "trim (buffer (initialState\<lparr>buffer := ''b '', selectorStack := [''@x'']\<rparr>)) \<noteq> []
   \<and> length (selectorStack (initialState\<lparr>buffer := ''b '', selectorStack := [''@x'']\<rparr>)
        @ [trim (buffer (initialState\<lparr>buffer := ''b '', selectorStack := [''@x'']\<rparr>))]) > 1
   \<and> (\<exists>s\<in>set (selectorStack (initialState\<lparr>buffer := ''b '', selectorStack := [''@x'']\<rparr>)
        @ [trim (buffer (initialState\<lparr>buffer := ''b '', selectorStack := [''@x'']\<rparr>))]).
         startsWith s ''@'')"
  by (simp_all add: trim_def isWhiteSpace_def initialState_def startsWith_def)

text \<open>
  The source \<open>a, b{c{x:1;}}\<close> parses to a block with the selectors \<open>a\<close> and \<open>b\<close> and a
  child \<open>c\<close>; an opening brace after white space only, and one after \<open>@x, b\<close>, fail.
\<close>

theorem parsed_blocks_selectors_witness:
  "(\<exists>state. scanSource ''a, b{c{x:1;}}'' initialState = Inr state
      \<and> map objSelectors (heap state) = [[''a'', ''b''], [''c'']]
      \<and> tree state = [0] \<and> map objChildren (heap state) = [Some [1], None]
      \<and> refsValid state)
   \<and> handleOpeningBrace (initialState\<lparr>buffer := '' ''\<rparr>)
       = Inl (ParsingError ''Unexpected opening brace'' 1 0)
   \<and> handleOpeningBrace (initialState\<lparr>buffer := ''b '', selectorStack := [''@x'']\<rparr>)
       = Inl (ParsingError ''At-rule mixed with other selectors'' 1 0)"
proof -
  obtain state where eq: "scanSource ''a, b{c{x:1;}}'' initialState = Inr state"
    and m: "map objSelectors (heap state) = [[''a'', ''b''], [''c'']]"
      "tree state = [0]" "map objChildren (heap state) = [Some [1], None]"
    using parse_example by (cases "scanSource ''a, b{c{x:1;}}'' initialState") auto
  from parsed_blocks_selectors [THEN conjunct1, THEN mp, OF eq]
  have "refsValid state" by simp
  with eq m have first: "\<exists>state. scanSource ''a, b{c{x:1;}}'' initialState = Inr state
      \<and> map objSelectors (heap state) = [[''a'', ''b''], [''c'']]
      \<and> tree state = [0] \<and> map objChildren (heap state) = [Some [1], None]
      \<and> refsValid state"
    by (intro exI conjI)
  from parsed_blocks_selectors [THEN conjunct2, THEN conjunct1, THEN mp, OF open_example(1)]
  have second: "handleOpeningBrace (initialState\<lparr>buffer := '' ''\<rparr>)
       = Inl (ParsingError ''Unexpected opening brace'' 1 0)"
    by (simp add: initialState_def)
  from parsed_blocks_selectors [THEN conjunct2, THEN conjunct2, THEN conjunct1, THEN mp,
      OF open_example(2)]
  have third: "handleOpeningBrace (initialState\<lparr>buffer := ''b '', selectorStack := [''@x'']\<rparr>)
       = Inl (ParsingError ''At-rule mixed with other selectors'' 1 0)"
    by (simp add: initialState_def)
  from first second third show ?thesis by (intro conjI)
qed








section \<open>The renderer\<close>

lemma renderBlock_unfold:
  "renderBlock state b ctx parents =
     (case renderTarget b ctx parents of
        Inl e \<Rightarrow> Inl e
      | Inr (target, sels') \<Rightarrow> renderBlockContent state target sels' b)"
  by (cases b) (simp split: sum.splits prod.splits)

lemma renderBlockContent_unfold:
  "renderBlockContent state ctx sels' b =
     (case children b of
        None \<Rightarrow> Inr (renderOwnContent state ctx sels' b)
      | Some cs \<Rightarrow>
          if cs \<noteq> [] then renderChildren (renderOwnContent state ctx sels' b) cs ctx sels'
          else Inr (renderOwnContent state ctx sels' b))"
  by (cases b) (simp split: option.splits)

lemma render_error_origin:
  "renderBlock state b ctx parents = Inl e \<Longrightarrow>
     \<exists>x\<in>set (preorder b). \<exists>c ps. renderTarget x c ps = Inl e"
  "renderBlockContent state ctx sels' b = Inl e \<Longrightarrow>
     \<exists>x\<in>set (tl (preorder b)). \<exists>c ps. renderTarget x c ps = Inl e"
  "renderChildren state bs ctx parents = Inl e \<Longrightarrow>
     \<exists>x\<in>set (preorderList bs). \<exists>c ps. renderTarget x c ps = Inl e"
proof (induction state b ctx parents and state ctx sels' b and state bs ctx parents
    arbitrary: e and e and e rule: renderBlock_renderBlockContent_renderChildren.induct)
  case (1 state sels props ch md ctx parents)
  let ?b = "Block sels props ch md"
  show ?case
  proof (cases "renderTarget ?b ctx parents")
    case (Inl e')
    with "1.prems" have "renderTarget ?b ctx parents = Inl e" by simp
    then show ?thesis by auto
  next
    case (Inr r)
    obtain target sels' where r: "r = (target, sels')" by (cases r)
    from "1.prems" Inr r have "renderBlockContent state target sels' ?b = Inl e" by simp
    from "1.IH" [OF Inr r [symmetric] this] show ?thesis by auto
  qed
next
  case (2 state ctx sels' sels props ch md)
  show ?case
  proof (cases ch)
    case None
    with "2.prems" show ?thesis by simp
  next
    case (Some cs)
    with "2.prems" have ne: "cs \<noteq> []"
      and r: "renderChildren (renderOwnContent state ctx sels' (Block sels props ch md))
                cs ctx sels' = Inl e"
      by (auto split: if_splits)
    from "2.IH" [OF Some ne r] Some show ?thesis by simp
  qed
next
  case (3 state ctx parents)
  then show ?case by simp
next
  case (4 state child rest ctx parents)
  show ?case
  proof (cases "renderBlock state child ctx parents")
    case (Inl e')
    with "4.prems" have "renderBlock state child ctx parents = Inl e" by simp
    from "4.IH"(1) [OF this] show ?thesis by auto
  next
    case (Inr state')
    with "4.prems" have "renderChildren state' rest ctx parents = Inl e" by simp
    from "4.IH"(2) [OF Inr this] show ?thesis by auto
  qed
qed

lemma renderTarget_TypeError:
  "renderTarget b c ps = Inl TypeError \<longleftrightarrow> selectors b = []"
  by (auto simp: renderTarget_def newRenderingError_def split: list.splits if_splits)

lemma render_fails_on_empty:
  "x \<in> set (preorder b) \<Longrightarrow> selectors x = [] \<Longrightarrow>
     \<exists>e. renderBlock state b ctx parents = Inl e"
  "x \<in> set (tl (preorder b)) \<Longrightarrow> selectors x = [] \<Longrightarrow>
     \<exists>e. renderBlockContent state ctx sels' b = Inl e"
  "x \<in> set (preorderList bs) \<Longrightarrow> selectors x = [] \<Longrightarrow>
     \<exists>e. renderChildren state bs ctx parents = Inl e"
proof (induction state b ctx parents and state ctx sels' b and state bs ctx parents
    rule: renderBlock_renderBlockContent_renderChildren.induct)
  case (1 state sels props ch md ctx parents)
  let ?b = "Block sels props ch md"
  show ?case
  proof (cases "renderTarget ?b ctx parents")
    case (Inl e')
    then show ?thesis by simp
  next
    case (Inr r)
    obtain target sels' where r: "r = (target, sels')" by (cases r)
    from Inr have "selectors ?b \<noteq> []"
      using renderTarget_TypeError [of ?b ctx parents]
      by (auto simp: renderTarget_def)
    with "1.prems" have "x \<in> set (tl (preorder ?b))" by auto
    from "1.IH" [OF Inr r [symmetric] this "1.prems"(2)] Inr r show ?thesis by simp
  qed
next
  case (2 state ctx sels' sels props ch md)
  show ?case
  proof (cases ch)
    case None
    with "2.prems" show ?thesis by simp
  next
    case (Some cs)
    with "2.prems" have x: "x \<in> set (preorderList cs)" by simp
    then have ne: "cs \<noteq> []" by auto
    from "2.IH" [OF Some ne x "2.prems"(2)] Some ne show ?thesis by simp
  qed
next
  case (3 state ctx parents)
  then show ?case by simp
next
  case (4 state child rest ctx parents)
  show ?case
  proof (cases "renderBlock state child ctx parents")
    case (Inl e')
    then show ?thesis by simp
  next
    case (Inr state')
    have "x \<notin> set (preorder child)"
    proof
      assume "x \<in> set (preorder child)"
      from "4.IH"(1) [OF this "4.prems"(2)] Inr show False by simp
    qed
    with "4.prems" have "x \<in> set (preorderList rest)" by simp
    from "4.IH"(2) [OF Inr this "4.prems"(2)] Inr show ?thesis by simp
  qed
qed

text \<open>
  Claim C10. \<open>renderBlock\<close> reads \<open>block.selectors[0]\<close> with no guard. For a tree in
  which every block, at any depth, has a selector list that is not empty, no render
  fails on that read. A block whose selector list is empty makes \<open>renderBlock\<close> fail
  with a \<open>TypeError\<close>, which is not a \<open>RenderingError\<close>, and the view's \<open>setSelectors\<close>
  empties the list without any check; a tree that has such a block anywhere does not
  render.
\<close>

theorem first_selector_access:
  "((\<forall>x\<in>set (preorderList blocks). selectors x \<noteq> []) \<longrightarrow>
       renderTreeToString blocks \<noteq> Inl TypeError)
   \<and> (selectors b = [] \<longrightarrow>
        renderBlock state b ctx parents = Inl TypeError
        \<and> renderTreeToString (b # rest) = Inl TypeError)
   \<and> (x \<in> set (preorderList blocks) \<and> selectors x = [] \<longrightarrow>
        (\<exists>e. renderTreeToString blocks = Inl e))
   \<and> selectors (setSelectors b []) = []
   \<and> renderBlock state (setSelectors b []) ctx parents = Inl TypeError
   \<and> TypeError \<noteq> RenderingError m"
proof (intro conjI impI)
  assume ne: "\<forall>x\<in>set (preorderList blocks). selectors x \<noteq> []"
  show "renderTreeToString blocks \<noteq> Inl TypeError"
  proof
    assume "renderTreeToString blocks = Inl TypeError"
    then have "renderChildren [] blocks ''root'' [] = Inl TypeError"
      by (simp add: renderTreeToString_def split: sum.splits)
    from render_error_origin(3) [OF this] obtain x c ps where
      "x \<in> set (preorderList blocks)" "renderTarget x c ps = Inl TypeError"
      by blast
    with ne show False by (simp add: renderTarget_TypeError)
  qed
next
  assume e: "selectors b = []"
  then have t: "renderTarget b c ps = Inl TypeError" for c ps
    by (simp add: renderTarget_TypeError)
  then show "renderBlock state b ctx parents = Inl TypeError"
    by (simp add: renderBlock_unfold)
  from t show "renderTreeToString (b # rest) = Inl TypeError"
    by (simp add: renderTreeToString_def renderBlock_unfold)
next
  assume "x \<in> set (preorderList blocks) \<and> selectors x = []"
  then obtain e where "renderChildren [] blocks ''root'' [] = Inl e"
    using render_fails_on_empty(3) [of x blocks "[]" "''root''" "[]"] by blast
  then show "\<exists>e. renderTreeToString blocks = Inl e"
    by (simp add: renderTreeToString_def)
next
  show "selectors (setSelectors b []) = []"
    by (simp add: setSelectors_def)
  then have "renderTarget (setSelectors b []) ctx parents = Inl TypeError"
    by (simp add: renderTarget_TypeError)
  then show "renderBlock state (setSelectors b []) ctx parents = Inl TypeError"
    by (simp add: renderBlock_unfold)
next
  show "TypeError \<noteq> RenderingError m" by simp
qed

text \<open>
  A tree of one block \<open>a\<close> does not fail on the read; a block without selectors fails
  with a \<open>TypeError\<close>, alone, as the first block of a tree and as the child of \<open>a\<close>.
\<close>

theorem first_selector_access_witness:
  "renderTreeToString [Block [''a''] None None None] \<noteq> Inl TypeError
   \<and> renderBlock [] (Block [] None None None) ''root'' [] = Inl TypeError
   \<and> renderTreeToString [Block [] None None None, Block [''a''] None None None] = Inl TypeError
   \<and> (\<exists>e. renderTreeToString [Block [''a''] None (Some [Block [] None None None]) None] = Inl e)"
proof (intro conjI)
  have "\<forall>x\<in>set (preorderList [Block [''a''] None None None]). selectors x \<noteq> []"
    by simp
  from first_selector_access [THEN conjunct1, THEN mp, OF this]
  show "renderTreeToString [Block [''a''] None None None] \<noteq> Inl TypeError" .
next
  have e: "selectors (Block [] None None None) = []" by simp
  from first_selector_access [THEN conjunct2, THEN conjunct1, THEN mp, OF e]
  show "renderBlock [] (Block [] None None None) ''root'' [] = Inl TypeError"
    and "renderTreeToString [Block [] None None None, Block [''a''] None None None]
           = Inl TypeError"
    by blast+
next
  have "Block [] None None None
          \<in> set (preorderList [Block [''a''] None (Some [Block [] None None None]) None])
        \<and> selectors (Block [] None None None) = []"
    by simp
  from first_selector_access [THEN conjunct2, THEN conjunct2, THEN conjunct1, THEN mp, OF this]
  show "\<exists>e. renderTreeToString [Block [''a''] None (Some [Block [] None None None]) None] = Inl e" .
qed

lemma startsWith_prefix: "startsWith s p \<longleftrightarrow> prefix p s"
proof
  assume "startsWith s p"
  then have "s = p @ drop (length p) s"
    by (metis startsWith_def append_take_drop_id)
  then show "prefix p s" by (metis prefixI)
next
  assume "prefix p s"
  then show "startsWith s p" by (auto simp: startsWith_def prefix_def)
qed

lemma startsWith_append: "startsWith s (p @ q) \<Longrightarrow> startsWith s p"
  by (simp add: startsWith_prefix append_prefixD)

lemma renderTarget_error_cases:
  assumes "renderTarget x c ps = Inl err"
  shows "selectors x = [] \<and> err = TypeError
       \<or> (\<exists>first rest. selectors x = first # rest
            \<and> (startsWith first ''@media screen'' \<and> includes_str c ''screen''
                 \<and> err = newRenderingError ''Nested media queries are not supported'' x
               \<or> startsWith first ''@media screen'' \<and> includes_str c ''-color-scheme''
                 \<and> err = newRenderingError
                     ''Responsive media queries cannot be nested inside color scheme at-rules'' x
               \<or> startsWith first ''@media'' \<and> includes_str first ''-color-scheme''
                 \<and> includes_str c ''-color-scheme''
                 \<and> err = newRenderingError ''Nested color scheme at-rules are not supported'' x
               \<or> startsWith first ''@'' \<and> startsWith c ''@''
                 \<and> err = newRenderingError ''Nested at-rules are not supported'' x))"
proof (cases "selectors x")
  case Nil
  with assms show ?thesis by (simp add: renderTarget_def)
next
  case (Cons first rest)
  with assms show ?thesis
    by (simp add: renderTarget_def split: if_splits)
qed

lemma renderBlock_ordinary:
  assumes "selectors b = first # rest" and "\<not> startsWith first ''@''"
  shows "renderBlock state b ctx parents =
           renderBlockContent state ctx
             (concat (map (\<lambda>selector.
                if parents = [] then [selector]
                else map (\<lambda>parent. renderSelector selector parent) parents)
                (selectors b))) b"
proof -
  from assms(2) have "\<not> startsWith first ''@media screen''" and "\<not> startsWith first ''@media''"
    using startsWith_append [of first "''@''" "''media screen''"]
      startsWith_append [of first "''@''" "''media''"]
    by auto
  with assms show ?thesis
    by (simp add: renderBlock_unfold renderTarget_def)
qed

text \<open>
  Claim C3. A block whose first selector starts with \<open>@media screen\<close> is rejected when
  the context contains \<open>screen\<close> or contains \<open>-color-scheme\<close>, and is otherwise rendered
  into the context of its prelude. A color-scheme block (first selector starting with
  \<open>@media\<close> and containing \<open>-color-scheme\<close>, and not a responsive one) is rejected when
  the context contains \<open>-color-scheme\<close>, and is otherwise rendered. Any other block
  whose first selector starts with \<open>@\<close> is rejected when the context starts with \<open>@\<close>,
  and is otherwise rendered with no parents. A block whose first selector does not
  start with \<open>@\<close> is never rejected. A block that is not rejected and has no children
  renders. The \<open>RenderingError\<close> raised has, in its message, the start line and column
  of the block rejected. No render raises a \<open>RenderingError\<close> but for a block of the
  tree that one of these three rules rejects.
\<close>

theorem nesting_rejections:
  assumes "selectors b = first # rest"
  shows "(startsWith first ''@media screen'' \<longrightarrow>
            renderBlock state b ctx parents =
              (if includes_str ctx ''screen'' then
                 Inl (newRenderingError ''Nested media queries are not supported'' b)
               else if includes_str ctx ''-color-scheme'' then
                 Inl (newRenderingError
                   ''Responsive media queries cannot be nested inside color scheme at-rules'' b)
               else renderBlockContent state first parents b))
       \<and> (\<not> startsWith first ''@media screen''
            \<and> startsWith first ''@media'' \<and> includes_str first ''-color-scheme'' \<longrightarrow>
            renderBlock state b ctx parents =
              (if includes_str ctx ''-color-scheme'' then
                 Inl (newRenderingError ''Nested color scheme at-rules are not supported'' b)
               else renderBlockContent state
                      (if \<not> startsWith ctx ''@media screen'' then first
                       else ctx @ ''and'' @ replaceCondition first) parents b))
       \<and> (\<not> startsWith first ''@media screen''
            \<and> \<not> (startsWith first ''@media'' \<and> includes_str first ''-color-scheme'')
            \<and> startsWith first ''@'' \<longrightarrow>
            renderBlock state b ctx parents =
              (if startsWith ctx ''@'' then
                 Inl (newRenderingError ''Nested at-rules are not supported'' b)
               else renderBlockContent state first [] b))
       \<and> (\<not> startsWith first ''@'' \<longrightarrow>
            renderBlock state b ctx parents =
              renderBlockContent state ctx
                (concat (map (\<lambda>selector.
                   if parents = [] then [selector]
                   else map (\<lambda>parent. renderSelector selector parent) parents)
                   (selectors b))) b)
       \<and> (children b = None \<longrightarrow>
            renderBlockContent state ctx sels b = Inr (renderOwnContent state ctx sels b))
       \<and> (metadata b = Some md \<longrightarrow>
            newRenderingError message b =
              RenderingError (''Rendering error: '' @ message @ '' @ line ''
                @ numberToString (line (start md)) @ '' (column ''
                @ numberToString (column (start md)) @ '').''))
       \<and> (renderTreeToString blocks = Inl (RenderingError m) \<longrightarrow>
            (\<exists>x\<in>set (preorderList blocks). \<exists>f r c. selectors x = f # r
              \<and> (startsWith f ''@media screen'' \<and> includes_str c ''screen''
                   \<and> RenderingError m
                       = newRenderingError ''Nested media queries are not supported'' x
                 \<or> startsWith f ''@media screen'' \<and> includes_str c ''-color-scheme''
                   \<and> RenderingError m = newRenderingError
                       ''Responsive media queries cannot be nested inside color scheme at-rules'' x
                 \<or> startsWith f ''@media'' \<and> includes_str f ''-color-scheme''
                   \<and> includes_str c ''-color-scheme''
                   \<and> RenderingError m
                       = newRenderingError ''Nested color scheme at-rules are not supported'' x
                 \<or> startsWith f ''@'' \<and> startsWith c ''@''
                   \<and> RenderingError m
                       = newRenderingError ''Nested at-rules are not supported'' x)))"
proof (intro conjI impI)
  assume "startsWith first ''@media screen''"
  with assms show "renderBlock state b ctx parents =
              (if includes_str ctx ''screen'' then
                 Inl (newRenderingError ''Nested media queries are not supported'' b)
               else if includes_str ctx ''-color-scheme'' then
                 Inl (newRenderingError
                   ''Responsive media queries cannot be nested inside color scheme at-rules'' b)
               else renderBlockContent state first parents b)"
    by (simp add: renderBlock_unfold renderTarget_def)
next
  assume "\<not> startsWith first ''@media screen''
            \<and> startsWith first ''@media'' \<and> includes_str first ''-color-scheme''"
  with assms show "renderBlock state b ctx parents =
              (if includes_str ctx ''-color-scheme'' then
                 Inl (newRenderingError ''Nested color scheme at-rules are not supported'' b)
               else renderBlockContent state
                      (if \<not> startsWith ctx ''@media screen'' then first
                       else ctx @ ''and'' @ replaceCondition first) parents b)"
    by (simp add: renderBlock_unfold renderTarget_def)
next
  assume "\<not> startsWith first ''@media screen''
            \<and> \<not> (startsWith first ''@media'' \<and> includes_str first ''-color-scheme'')
            \<and> startsWith first ''@''"
  with assms show "renderBlock state b ctx parents =
              (if startsWith ctx ''@'' then
                 Inl (newRenderingError ''Nested at-rules are not supported'' b)
               else renderBlockContent state first [] b)"
    by (auto simp: renderBlock_unfold renderTarget_def)
next
  assume "\<not> startsWith first ''@''"
  from renderBlock_ordinary [OF assms this]
  show "renderBlock state b ctx parents =
              renderBlockContent state ctx
                (concat (map (\<lambda>selector.
                   if parents = [] then [selector]
                   else map (\<lambda>parent. renderSelector selector parent) parents)
                   (selectors b))) b" .
next
  assume "children b = None"
  then show "renderBlockContent state ctx sels b = Inr (renderOwnContent state ctx sels b)"
    by (simp add: renderBlockContent_unfold)
next
  assume "metadata b = Some md"
  then show "newRenderingError message b =
              RenderingError (''Rendering error: '' @ message @ '' @ line ''
                @ numberToString (line (start md)) @ '' (column ''
                @ numberToString (column (start md)) @ '').'')"
    by (simp add: newRenderingError_def)
next
  assume "renderTreeToString blocks = Inl (RenderingError m)"
  then have "renderChildren [] blocks ''root'' [] = Inl (RenderingError m)"
    by (simp add: renderTreeToString_def split: sum.splits)
  from render_error_origin(3) [OF this] obtain x c ps where
    x: "x \<in> set (preorderList blocks)" and t: "renderTarget x c ps = Inl (RenderingError m)"
    by blast
  from renderTarget_error_cases [OF t] x
  show "\<exists>x\<in>set (preorderList blocks). \<exists>f r c. selectors x = f # r
              \<and> (startsWith f ''@media screen'' \<and> includes_str c ''screen''
                   \<and> RenderingError m
                       = newRenderingError ''Nested media queries are not supported'' x
                 \<or> startsWith f ''@media screen'' \<and> includes_str c ''-color-scheme''
                   \<and> RenderingError m = newRenderingError
                       ''Responsive media queries cannot be nested inside color scheme at-rules'' x
                 \<or> startsWith f ''@media'' \<and> includes_str f ''-color-scheme''
                   \<and> includes_str c ''-color-scheme''
                   \<and> RenderingError m
                       = newRenderingError ''Nested color scheme at-rules are not supported'' x
                 \<or> startsWith f ''@'' \<and> startsWith c ''@''
                   \<and> RenderingError m
                       = newRenderingError ''Nested at-rules are not supported'' x)"
    by (intro bexI [of _ x]) auto
qed

text \<open>
  Each rule at a block that starts at line 3, column 7: rejected in a context that
  meets the rule's condition, rendered under \<open>root\<close>.
\<close>

theorem nesting_rejections_witness:
  "renderBlock []
     (Block [''@media screen''] None None (Some \<lparr>start = \<lparr>line = 3, column = 7\<rparr>, finish = None\<rparr>))
     ''@media screen'' []
   = Inl (RenderingError
       ''Rendering error: Nested media queries are not supported @ line 3 (column 7).'')
   \<and> renderBlock []
     (Block [''@media screen''] None None (Some \<lparr>start = \<lparr>line = 3, column = 7\<rparr>, finish = None\<rparr>))
     ''@media (prefers-color-scheme:dark)'' []
   = Inl (RenderingError
       ''Rendering error: Responsive media queries cannot be nested inside color scheme at-rules @ line 3 (column 7).'')
   \<and> renderBlock []
     (Block [''@media screen''] None None (Some \<lparr>start = \<lparr>line = 3, column = 7\<rparr>, finish = None\<rparr>))
     ''root'' []
   = Inr [(''@media screen'', [])]
   \<and> renderBlock []
     (Block [''@media (prefers-color-scheme:dark)''] None None
        (Some \<lparr>start = \<lparr>line = 3, column = 7\<rparr>, finish = None\<rparr>))
     ''@media (prefers-color-scheme:dark)'' []
   = Inl (RenderingError
       ''Rendering error: Nested color scheme at-rules are not supported @ line 3 (column 7).'')
   \<and> renderBlock []
     (Block [''@media (prefers-color-scheme:dark)''] None None
        (Some \<lparr>start = \<lparr>line = 3, column = 7\<rparr>, finish = None\<rparr>))
     ''root'' []
   = Inr [(''@media (prefers-color-scheme:dark)'', [])]
   \<and> renderBlock []
     (Block [''@font-face''] None None (Some \<lparr>start = \<lparr>line = 3, column = 7\<rparr>, finish = None\<rparr>))
     ''@media screen'' []
   = Inl (RenderingError
       ''Rendering error: Nested at-rules are not supported @ line 3 (column 7).'')
   \<and> renderBlock []
     (Block [''@font-face''] None None (Some \<lparr>start = \<lparr>line = 3, column = 7\<rparr>, finish = None\<rparr>))
     ''root'' []
   = Inr [(''@font-face'', [])]"
proof -
  let ?md = "Some \<lparr>start = \<lparr>line = 3, column = 7\<rparr>, finish = None\<rparr>"
  let ?b1 = "Block [''@media screen''] None None ?md"
  let ?b2 = "Block [''@media (prefers-color-scheme:dark)''] None None ?md"
  let ?b3 = "Block [''@font-face''] None None ?md"
  have s1: "selectors ?b1 = ''@media screen'' # []" by simp
  have s2: "selectors ?b2 = ''@media (prefers-color-scheme:dark)'' # []" by simp
  have s3: "selectors ?b3 = ''@font-face'' # []" by simp
  have h1: "startsWith ''@media screen'' ''@media screen''"
    by (simp add: startsWith_def)
  have h2: "\<not> startsWith ''@media (prefers-color-scheme:dark)'' ''@media screen''
      \<and> startsWith ''@media (prefers-color-scheme:dark)'' ''@media''
      \<and> includes_str ''@media (prefers-color-scheme:dark)'' ''-color-scheme''"
    by (simp add: startsWith_def)
  have h3: "\<not> startsWith ''@font-face'' ''@media screen''
      \<and> \<not> (startsWith ''@font-face'' ''@media'' \<and> includes_str ''@font-face'' ''-color-scheme'')
      \<and> startsWith ''@font-face'' ''@''"
    by (simp add: startsWith_def)
  note ev = startsWith_def newRenderingError_def numberToString.simps renderOwnContent_def
  have a: "renderBlock [] ?b1 ''@media screen'' [] = Inl (RenderingError
       ''Rendering error: Nested media queries are not supported @ line 3 (column 7).'')"
    using nesting_rejections [of _ _ _ "[]" "''@media screen''" "[]",
        OF s1, THEN conjunct1, THEN mp, OF h1]
    by (simp add: ev)
  have b: "renderBlock [] ?b1 ''@media (prefers-color-scheme:dark)'' [] = Inl (RenderingError
       ''Rendering error: Responsive media queries cannot be nested inside color scheme at-rules @ line 3 (column 7).'')"
    using nesting_rejections [of _ _ _ "[]" "''@media (prefers-color-scheme:dark)''" "[]",
        OF s1, THEN conjunct1, THEN mp, OF h1]
    by (simp add: ev)
  have c: "renderBlock [] ?b1 ''root'' [] = Inr [(''@media screen'', [])]"
    using nesting_rejections [of _ _ _ "[]" "''root''" "[]",
        OF s1, THEN conjunct1, THEN mp, OF h1]
    by (simp add: ev)
  have d: "renderBlock [] ?b2 ''@media (prefers-color-scheme:dark)'' [] = Inl (RenderingError
       ''Rendering error: Nested color scheme at-rules are not supported @ line 3 (column 7).'')"
    using nesting_rejections [of _ _ _ "[]" "''@media (prefers-color-scheme:dark)''" "[]",
        OF s2, THEN conjunct2, THEN conjunct1, THEN mp, OF h2]
    by (simp add: ev)
  have e: "renderBlock [] ?b2 ''root'' [] = Inr [(''@media (prefers-color-scheme:dark)'', [])]"
    using nesting_rejections [of _ _ _ "[]" "''root''" "[]",
        OF s2, THEN conjunct2, THEN conjunct1, THEN mp, OF h2]
    by (simp add: ev)
  have f: "renderBlock [] ?b3 ''@media screen'' [] = Inl (RenderingError
       ''Rendering error: Nested at-rules are not supported @ line 3 (column 7).'')"
    using nesting_rejections [of _ _ _ "[]" "''@media screen''" "[]",
        OF s3, THEN conjunct2, THEN conjunct2, THEN conjunct1, THEN mp, OF h3]
    by (simp add: ev)
  have g: "renderBlock [] ?b3 ''root'' [] = Inr [(''@font-face'', [])]"
    using nesting_rejections [of _ _ _ "[]" "''root''" "[]",
        OF s3, THEN conjunct2, THEN conjunct2, THEN conjunct1, THEN mp, OF h3]
    by (simp add: ev)
  show ?thesis
    by (intro conjI a b c d e f g)
qed

lemma matchCondition_shape:
  assumes "pre \<noteq> []" and "CHR ''('' \<notin> set pre" and "inner \<noteq> []"
    and "CHR '')'' \<notin> set inner" and "CHR '')'' \<notin> set post"
  shows "matchCondition (pre @ ''('' @ inner @ '')'' @ post) = Some (''('' @ inner @ '')'')"
    and "firstGroup (pre @ ''('' @ inner @ '')'' @ post) = ''('' @ inner @ '')''"
proof -
  let ?s = "pre @ ''('' @ inner @ '')'' @ post"
  have p: "\<And>x. x \<in> set pre \<Longrightarrow> x \<noteq> CHR ''(''" using assms(2) by auto
  have i: "\<And>x. x \<in> set inner \<Longrightarrow> x \<noteq> CHR '')''" using assms(4) by auto
  have t1: "takeWhile (\<lambda>c. c \<noteq> CHR ''('') ?s = pre"
    using p by (simp add: takeWhile_append2)
  have d1: "dropWhile (\<lambda>c. c \<noteq> CHR ''('') ?s = ''('' @ inner @ '')'' @ post"
    using p by (simp add: dropWhile_append2)
  have t2: "takeWhile (\<lambda>c. c \<noteq> CHR '')'') (inner @ '')'' @ post) = inner"
    using i by (simp add: takeWhile_append2)
  have d2: "dropWhile (\<lambda>c. c \<noteq> CHR '')'') (inner @ '')'' @ post) = '')'' @ post"
    using i by (simp add: dropWhile_append2)
  show "matchCondition ?s = Some (''('' @ inner @ '')'')"
    unfolding matchCondition_def Let_def t1 d1
    using assms(1,3,5) t2 d2 by simp
  show "firstGroup ?s = ''('' @ inner @ '')''"
    unfolding firstGroup_def d1 using t2 by simp
qed

text \<open>
  Claim C2, as stated, fails twice. A prelude with a second \<open>)\<close> does not match the
  pattern that extracts the condition, so the whole prelude, not its first
  parenthesised group, follows \<open>and\<close> in the merged name. And a prelude that starts with
  \<open>@media screen\<close> and contains \<open>-color-scheme\<close> is a responsive media query, by the
  order of the rules: under a context starting with \<open>@media screen\<close> it is rejected.
\<close>

theorem color_scheme_target_counterexample:
  "renderBlock []
     (Block [''@media (prefers-color-scheme:dark) and (x:y)'']
        (Some [\<lparr>key = ''c'', val = ''d''\<rparr>]) None None)
     ''@media screen'' []
   = Inr [(''@media screenand@media (prefers-color-scheme:dark) and (x:y)'', [''{c:d}''])]
   \<and> renderBlockContent []
        (''@media screen'' @ ''and'' @ firstGroup ''@media (prefers-color-scheme:dark) and (x:y)'')
        []
        (Block [''@media (prefers-color-scheme:dark) and (x:y)'']
           (Some [\<lparr>key = ''c'', val = ''d''\<rparr>]) None None)
      = Inr [(''@media screenand(prefers-color-scheme:dark)'', [''{c:d}''])]
   \<and> renderBlock []
        (Block [''@media screen and (prefers-color-scheme:dark)'']
           (Some [\<lparr>key = ''c'', val = ''d''\<rparr>]) None None)
        ''@media screen'' []
      = Inl (RenderingError
          ''Rendering error: Nested media queries are not supported @ line undefined (column undefined).'')
   \<and> renderBlockContent []
        (''@media screen'' @ ''and'' @ firstGroup ''@media screen and (prefers-color-scheme:dark)'')
        []
        (Block [''@media screen and (prefers-color-scheme:dark)'']
           (Some [\<lparr>key = ''c'', val = ''d''\<rparr>]) None None)
      = Inr [(''@media screenand(prefers-color-scheme:dark)'', [''{c:d}''])]"
  by code_simp

text \<open>
  Claim C2, amended. For a block whose first selector does not start with
  \<open>@media screen\<close>, starts with \<open>@media\<close> and contains \<open>-color-scheme\<close>, rendered in a
  context that does not contain \<open>-color-scheme\<close>: when the context does not start with
  \<open>@media screen\<close>, the content is rendered into the context named by the first
  selector; when it does, and the first selector is one or more characters other than
  \<open>(\<close>, then \<open>(\<close>, one or more characters other than \<open>)\<close>, then \<open>)\<close>, then characters other
  than \<open>)\<close>, the content is rendered into the context named by the current context,
  \<open>and\<close>, and that parenthesised group, with nothing in between.
\<close>

theorem color_scheme_target:
  assumes "selectors b = first # rest"
    and "\<not> startsWith first ''@media screen''"
    and "startsWith first ''@media''"
    and "includes_str first ''-color-scheme''"
    and "\<not> includes_str ctx ''-color-scheme''"
  shows "(\<not> startsWith ctx ''@media screen'' \<longrightarrow>
            renderBlock state b ctx parents = renderBlockContent state first parents b)
       \<and> (startsWith ctx ''@media screen''
            \<and> first = pre @ ''('' @ inner @ '')'' @ post
            \<and> pre \<noteq> [] \<and> CHR ''('' \<notin> set pre
            \<and> inner \<noteq> [] \<and> CHR '')'' \<notin> set inner \<and> CHR '')'' \<notin> set post \<longrightarrow>
            firstGroup first = ''('' @ inner @ '')''
            \<and> renderBlock state b ctx parents
                = renderBlockContent state (ctx @ ''and'' @ ''('' @ inner @ '')'') parents b)"
proof (intro conjI impI)
  assume "\<not> startsWith ctx ''@media screen''"
  with assms show "renderBlock state b ctx parents = renderBlockContent state first parents b"
    by (simp add: renderBlock_unfold renderTarget_def)
next
  assume h: "startsWith ctx ''@media screen''
            \<and> first = pre @ ''('' @ inner @ '')'' @ post
            \<and> pre \<noteq> [] \<and> CHR ''('' \<notin> set pre
            \<and> inner \<noteq> [] \<and> CHR '')'' \<notin> set inner \<and> CHR '')'' \<notin> set post"
  then have m: "matchCondition first = Some (''('' @ inner @ '')'')"
    and g: "firstGroup first = ''('' @ inner @ '')''"
    using matchCondition_shape [of pre inner post] by simp_all
  from g show "firstGroup first = ''('' @ inner @ '')''" .
  from m have "replaceCondition first = ''('' @ inner @ '')''"
    by (simp add: replaceCondition_def)
  with assms h show "renderBlock state b ctx parents
                = renderBlockContent state (ctx @ ''and'' @ ''('' @ inner @ '')'') parents b"
    by (simp add: renderBlock_unfold renderTarget_def)
qed

lemma color_scheme_example:
  "renderBlockContent [] ''@media screen (min-width:600px)and(prefers-color-scheme:dark)'' []
     (Block [''@media (prefers-color-scheme:dark)''] None
        (Some [Block [''.a''] (Some [\<lparr>key = ''color'', val = ''#000''\<rparr>]) None None]) None)
   = Inr [(''@media screen (min-width:600px)and(prefers-color-scheme:dark)'', [''.a{color:#000}''])]"
  "renderBlockContent [] ''@media (prefers-color-scheme:dark)'' []
     (Block [''@media (prefers-color-scheme:dark)''] None
        (Some [Block [''.a''] (Some [\<lparr>key = ''color'', val = ''#000''\<rparr>]) None None]) None)
   = Inr [(''@media (prefers-color-scheme:dark)'', [''.a{color:#000}''])]"
  by code_simp+

text \<open>
  The spec's scenario: a color-scheme block with one rule, under the context
  \<open>@media screen (min-width:600px)\<close> and under \<open>root\<close>.
\<close>

theorem color_scheme_target_witness:
  "renderBlock []
     (Block [''@media (prefers-color-scheme:dark)''] None
        (Some [Block [''.a''] (Some [\<lparr>key = ''color'', val = ''#000''\<rparr>]) None None]) None)
     ''@media screen (min-width:600px)'' []
   = Inr [(''@media screen (min-width:600px)and(prefers-color-scheme:dark)'', [''.a{color:#000}''])]
   \<and> renderBlock []
     (Block [''@media (prefers-color-scheme:dark)''] None
        (Some [Block [''.a''] (Some [\<lparr>key = ''color'', val = ''#000''\<rparr>]) None None]) None)
     ''root'' []
   = Inr [(''@media (prefers-color-scheme:dark)'', [''.a{color:#000}''])]"
proof -
  let ?first = "''@media (prefers-color-scheme:dark)''"
  let ?b = "Block [?first] None
        (Some [Block [''.a''] (Some [\<lparr>key = ''color'', val = ''#000''\<rparr>]) None None]) None"
  have s: "selectors ?b = ?first # []" by simp
  have h1: "\<not> startsWith ?first ''@media screen''"
    and h2: "startsWith ?first ''@media''"
    and h3: "includes_str ?first ''-color-scheme''"
    by (simp_all add: startsWith_def)
  have c1: "\<not> includes_str ''@media screen (min-width:600px)'' ''-color-scheme''"
    and c2: "\<not> includes_str ''root'' ''-color-scheme''"
    by (simp_all add: startsWith_def)
  have shape: "startsWith ''@media screen (min-width:600px)'' ''@media screen''
      \<and> ?first = ''@media '' @ ''('' @ ''prefers-color-scheme:dark'' @ '')'' @ []
      \<and> ''@media '' \<noteq> [] \<and> CHR ''('' \<notin> set ''@media ''
      \<and> ''prefers-color-scheme:dark'' \<noteq> [] \<and> CHR '')'' \<notin> set ''prefers-color-scheme:dark''
      \<and> CHR '')'' \<notin> set []"
    by (simp add: startsWith_def)
  have root: "\<not> startsWith ''root'' ''@media screen''"
    by (simp add: startsWith_def)
  from color_scheme_target [OF s h1 h2 h3 c1, THEN conjunct2, THEN mp, OF shape, THEN conjunct2,
      of "[]" "[]"]
  have "renderBlock [] ?b ''@media screen (min-width:600px)'' []
      = renderBlockContent [] ''@media screen (min-width:600px)and(prefers-color-scheme:dark)'' [] ?b"
    by simp
  with color_scheme_example(1) have first: "renderBlock [] ?b ''@media screen (min-width:600px)'' []
      = Inr [(''@media screen (min-width:600px)and(prefers-color-scheme:dark)'', [''.a{color:#000}''])]"
    by (rule_tac trans)
  from color_scheme_target [OF s h1 h2 h3 c2, THEN conjunct1, THEN mp, OF root, of "[]" "[]"]
    color_scheme_example(2)
  have second: "renderBlock [] ?b ''root'' []
      = Inr [(''@media (prefers-color-scheme:dark)'', [''.a{color:#000}''])]"
    by (rule trans)
  from first second show ?thesis by (intro conjI)
qed

lemma includes_ampersand: "includes_str s ''&'' \<longleftrightarrow> CHR ''&'' \<in> set s"
  by (induction s) (auto simp: startsWith_def)

lemma getSubstitution_plain:
  "CHR ''$'' \<notin> set replacement \<Longrightarrow> getSubstitution matched str position replacement = replacement"
  by (induction matched str position replacement rule: getSubstitution.induct) auto

lemma replaceFrom_plain:
  "CHR ''$'' \<notin> set replacement \<Longrightarrow>
     replaceFrom str position cs replacement
       = concat (map (\<lambda>c. if c = CHR ''&'' then replacement else [c]) cs)"
  by (induction cs arbitrary: position) (simp_all add: getSubstitution_plain)

lemma renderSelector_plain:
  "CHR ''$'' \<notin> set parent \<Longrightarrow> renderSelector selector parent = combineSelector selector parent"
  by (simp add: renderSelector_def combineSelector_def includes_ampersand replaceAmpersands_def
        replaceFrom_plain)

text \<open>
  The ordinary-rule case of claim C1 where it holds: when no parent contains a dollar
  sign, the selector list rendered, and passed to the children as their parents, is
  the cross product of the block's selectors with the parents, and the block's own
  selectors when there are no parents.
\<close>

lemma ordinary_rule_cross_product:
  assumes "selectors b = first # rest" and "\<not> startsWith first ''@''"
    and "\<forall>parent\<in>set parents. CHR ''$'' \<notin> set parent"
  shows "renderBlock state b ctx parents
           = renderBlockContent state ctx (crossProduct (selectors b) parents) b"
    and "parents = [] \<longrightarrow> crossProduct (selectors b) parents = selectors b"
    and "children b = Some cs \<and> cs \<noteq> [] \<longrightarrow>
           renderBlockContent state ctx sels b
             = renderChildren (renderOwnContent state ctx sels b) cs ctx sels"
proof -
  have eq: "map (renderSelector selector) parents = map (combineSelector selector) parents"
    for selector
    using assms(3) by (intro map_cong) (auto simp: renderSelector_plain)
  have "concat (map (\<lambda>selector.
                   if parents = [] then [selector]
                   else map (\<lambda>parent. renderSelector selector parent) parents)
                   (selectors b)) = crossProduct (selectors b) parents"
    by (simp add: crossProduct_def eq)
  with renderBlock_ordinary [OF assms(1,2), of state ctx parents]
  show "renderBlock state b ctx parents
           = renderBlockContent state ctx (crossProduct (selectors b) parents) b"
    by simp
  show "parents = [] \<longrightarrow> crossProduct (selectors b) parents = selectors b"
    by (simp add: crossProduct_def)
  show "children b = Some cs \<and> cs \<noteq> [] \<longrightarrow>
           renderBlockContent state ctx sels b
             = renderChildren (renderOwnContent state ctx sels b) cs ctx sels"
    by (simp add: renderBlockContent_unfold)
qed

text \<open>
  Claim C1 fails on the code where a parent selector contains a dollar pattern:
  \<open>selector.replace(/&/g, parent)\<close> reads \<open>$$\<close>, \<open>$&\<close>, \<open>$`\<close> and \<open>$'\<close> in the parent as
  replacement patterns. With the parent \<open>.a$$\<close> the selector \<open>&:hover\<close> renders as
  \<open>.a$:hover\<close>, where replacing the \<open>&\<close> by the parent gives \<open>.a$$:hover\<close>; with the parent
  \<open>.a$&\<close> it renders as \<open>.a&:hover\<close>.
\<close>

theorem render_selector_dollar_patterns:
  "renderSelector ''&:hover'' ''.a$$'' = ''.a$:hover''
   \<and> combineSelector ''&:hover'' ''.a$$'' = ''.a$$:hover''
   \<and> renderSelector ''&:hover'' ''.a$&'' = ''.a&:hover''
   \<and> combineSelector ''&:hover'' ''.a$&'' = ''.a$&:hover''
   \<and> renderTreeToString
        [Block [''.a$$''] None
           (Some [Block [''&:hover''] (Some [\<lparr>key = ''color'', val = ''red''\<rparr>]) None None]) None]
      = Inr ''.a$:hover{color:red}''
   \<and> renderTreeToString
        [Block [''.a''] None
           (Some [Block [''&:hover''] (Some [\<lparr>key = ''color'', val = ''red''\<rparr>]) None None,
                  Block [''.b''] (Some [\<lparr>key = ''color'', val = ''red''\<rparr>]) None None]) None]
      = Inr ''.a:hover{color:red}.a .b{color:red}''"
  by code_simp

lemma keys_pushFragment: "map fst (pushFragment state c f) = map fst state"
  by (induction state c f rule: pushFragment.induct) auto

lemma map_of_pushFragment:
  "map_of (pushFragment state c f) c'
     = (if c' = c then map_option (\<lambda>frs. frs @ [f]) (map_of state c) else map_of state c')"
  by (induction state c f rule: pushFragment.induct) auto

lemma keys_renderOwnContent:
  "map fst (renderOwnContent state c sels b)
     = map fst state @ (if c \<in> set (map fst state) then [] else [c])"
  by (auto simp: renderOwnContent_def Let_def keys_pushFragment map_of_eq_None_iff
        split: option.splits)

lemma map_of_renderOwnContent:
  "map_of (renderOwnContent state c sels b) c'
     = (if c' = c then Some (fragmentsOf state c @ ownFragments sels b) else map_of state c')"
proof (cases "map_of state c")
  case None
  then have "map_of (state @ [(c, [])]) c' = (if c' = c then Some [] else map_of state c')"
    by (auto simp: map_add_def split: option.splits)
  with None show ?thesis
    by (auto simp: renderOwnContent_def Let_def map_of_pushFragment fragmentsOf_def
          ownFragments_def renderProperties_def map_add_def
        split: option.splits)
next
  case (Some frs)
  then show ?thesis
    by (auto simp: renderOwnContent_def Let_def map_of_pushFragment fragmentsOf_def
          ownFragments_def renderProperties_def
        split: option.splits)
qed

lemma stateExtends_refl: "stateExtends state state"
  by (simp add: stateExtends_def)

lemma stateExtends_trans:
  assumes "stateExtends a b" and "stateExtends b c"
  shows "stateExtends a c"
  unfolding stateExtends_def
proof (intro conjI allI impI)
  from assms show "prefix (map fst a) (map fst c)"
    by (auto simp: stateExtends_def)
next
  fix k frs assume "map_of a k = Some frs"
  with assms(1) obtain m1 where "map_of b k = Some (frs @ m1)"
    by (auto simp: stateExtends_def)
  with assms(2) obtain m2 where "map_of c k = Some ((frs @ m1) @ m2)"
    unfolding stateExtends_def by blast
  then show "\<exists>more. map_of c k = Some (frs @ more)" by simp
qed

lemma renderOwnContent_extends:
  "stateExtends state (renderOwnContent state c sels b)"
  "distinct (map fst state) \<Longrightarrow> distinct (map fst (renderOwnContent state c sels b))"
  by (auto simp: stateExtends_def keys_renderOwnContent map_of_renderOwnContent fragmentsOf_def)

lemma render_extends:
  "renderBlock state b ctx parents = Inr state' \<Longrightarrow>
     stateExtends state state' \<and> (distinct (map fst state) \<longrightarrow> distinct (map fst state'))"
  "renderBlockContent state ctx sels' b = Inr state' \<Longrightarrow>
     stateExtends state state' \<and> (distinct (map fst state) \<longrightarrow> distinct (map fst state'))"
  "renderChildren state bs ctx parents = Inr state' \<Longrightarrow>
     stateExtends state state' \<and> (distinct (map fst state) \<longrightarrow> distinct (map fst state'))"
proof (induction state b ctx parents and state ctx sels' b and state bs ctx parents
    arbitrary: state' and state' and state'
    rule: renderBlock_renderBlockContent_renderChildren.induct)
  case (1 state sels props ch md ctx parents)
  from "1.prems" obtain target sels' where
    t: "renderTarget (Block sels props ch md) ctx parents = Inr (target, sels')"
    and r: "renderBlockContent state target sels' (Block sels props ch md) = Inr state'"
    by (auto split: sum.splits)
  from "1.IH" [OF t refl r] show ?case .
next
  case (2 state ctx sels' sels props ch md)
  let ?own = "renderOwnContent state ctx sels' (Block sels props ch md)"
  note own = renderOwnContent_extends [of state ctx sels' "Block sels props ch md"]
  show ?case
  proof (cases "ch = None \<or> ch = Some []")
    case True
    with "2.prems" have "state' = ?own" by auto
    with own show ?thesis by simp
  next
    case False
    then obtain cs where ch: "ch = Some cs" and ne: "cs \<noteq> []" by auto
    with "2.prems" have r: "renderChildren ?own cs ctx sels' = Inr state'" by simp
    from "2.IH" [OF ch ne r] own show ?thesis
      by (auto intro: stateExtends_trans)
  qed
next
  case (3 state ctx parents)
  then show ?case by (simp add: stateExtends_refl)
next
  case (4 state child rest ctx parents)
  from "4.prems" obtain mid where
    c: "renderBlock state child ctx parents = Inr mid"
    and r: "renderChildren mid rest ctx parents = Inr state'"
    by (auto split: sum.splits)
  from "4.IH"(1) [OF c] "4.IH"(2) [OF c r] show ?case
    by (auto intro: stateExtends_trans)
qed

lemma startsWith_extend: "startsWith s p \<Longrightarrow> startsWith (s @ t) p"
  by (simp add: startsWith_prefix prefix_prefix)

lemma media_screen_at: "startsWith s ''@media screen'' \<Longrightarrow> startsWith s ''@''"
  using startsWith_append [of s "''@''" "''media screen''"] by simp

lemma media_at: "startsWith s ''@media'' \<Longrightarrow> startsWith s ''@''"
  using startsWith_append [of s "''@''" "''media''"] by simp

lemma renderTarget_context_name:
  assumes "renderTarget b ctx ps = Inr (target, sels')"
    and "ctx = ''root'' \<or> startsWith ctx ''@''"
  shows "target = ''root'' \<or> startsWith target ''@''"
proof (cases "selectors b")
  case Nil
  with assms(1) show ?thesis by (simp add: renderTarget_def)
next
  case (Cons first rest)
  have root: "\<not> startsWith ''root'' ''@media screen''"
    by (simp add: startsWith_def)
  consider (responsive) "startsWith first ''@media screen''"
    | (scheme) "\<not> startsWith first ''@media screen''"
        "startsWith first ''@media'' \<and> includes_str first ''-color-scheme''"
    | (other) "\<not> startsWith first ''@media screen''"
        "\<not> (startsWith first ''@media'' \<and> includes_str first ''-color-scheme'')"
        "startsWith first ''@''"
    | (ordinary) "\<not> startsWith first ''@media screen''"
        "\<not> (startsWith first ''@media'' \<and> includes_str first ''-color-scheme'')"
        "\<not> startsWith first ''@''"
    by blast
  then show ?thesis
  proof cases
    case responsive
    with assms(1) Cons have "target = first"
      by (simp add: renderTarget_def split: if_splits)
    with responsive show ?thesis by (simp add: media_screen_at)
  next
    case scheme
    with assms(1) Cons have
      "target = first \<or> startsWith ctx ''@media screen'' \<and> target = ctx @ ''and'' @ replaceCondition first"
      by (simp add: renderTarget_def split: if_splits)
    then show ?thesis
    proof
      assume "target = first"
      with scheme show ?thesis by (simp add: media_at)
    next
      assume "startsWith ctx ''@media screen'' \<and> target = ctx @ ''and'' @ replaceCondition first"
      then show ?thesis
        using startsWith_extend [OF media_screen_at, of ctx "''and'' @ replaceCondition first"]
        by simp
    qed
  next
    case other
    with assms(1) Cons have "target = first"
      by (simp add: renderTarget_def split: if_splits)
    with other show ?thesis by simp
  next
    case ordinary
    with assms(1) Cons have "target = ctx"
      by (simp add: renderTarget_def split: if_splits)
    with assms(2) show ?thesis by simp
  qed
qed

lemma render_context_names:
  "renderBlock state b ctx parents = Inr state' \<Longrightarrow>
     ctx = ''root'' \<or> startsWith ctx ''@'' \<Longrightarrow>
     \<forall>k\<in>set (map fst state). k = ''root'' \<or> startsWith k ''@'' \<Longrightarrow>
     \<forall>k\<in>set (map fst state'). k = ''root'' \<or> startsWith k ''@''"
  "renderBlockContent state ctx sels' b = Inr state' \<Longrightarrow>
     ctx = ''root'' \<or> startsWith ctx ''@'' \<Longrightarrow>
     \<forall>k\<in>set (map fst state). k = ''root'' \<or> startsWith k ''@'' \<Longrightarrow>
     \<forall>k\<in>set (map fst state'). k = ''root'' \<or> startsWith k ''@''"
  "renderChildren state bs ctx parents = Inr state' \<Longrightarrow>
     ctx = ''root'' \<or> startsWith ctx ''@'' \<Longrightarrow>
     \<forall>k\<in>set (map fst state). k = ''root'' \<or> startsWith k ''@'' \<Longrightarrow>
     \<forall>k\<in>set (map fst state'). k = ''root'' \<or> startsWith k ''@''"
proof (induction state b ctx parents and state ctx sels' b and state bs ctx parents
    arbitrary: state' and state' and state'
    rule: renderBlock_renderBlockContent_renderChildren.induct)
  case (1 state sels props ch md ctx parents)
  from "1.prems"(1) obtain target sels' where
    t: "renderTarget (Block sels props ch md) ctx parents = Inr (target, sels')"
    and r: "renderBlockContent state target sels' (Block sels props ch md) = Inr state'"
    by (auto split: sum.splits)
  from renderTarget_context_name [OF t "1.prems"(2)]
  have "target = ''root'' \<or> startsWith target ''@''" .
  from "1.IH" [OF t refl r this "1.prems"(3)] show ?case .
next
  case (2 state ctx sels' sels props ch md)
  let ?own = "renderOwnContent state ctx sels' (Block sels props ch md)"
  have own: "\<forall>k\<in>set (map fst ?own). k = ''root'' \<or> startsWith k ''@''"
    using "2.prems"(2,3) by (auto simp: keys_renderOwnContent simp del: set_map)
  show ?case
  proof (cases "ch = None \<or> ch = Some []")
    case True
    with "2.prems"(1) have "state' = ?own" by auto
    with own show ?thesis by simp
  next
    case False
    then obtain cs where ch: "ch = Some cs" and ne: "cs \<noteq> []" by auto
    with "2.prems"(1) have r: "renderChildren ?own cs ctx sels' = Inr state'" by simp
    from "2.IH" [OF ch ne r "2.prems"(2) own] show ?thesis .
  qed
next
  case (3 state ctx parents)
  then show ?case by simp
next
  case (4 state child rest ctx parents)
  from "4.prems"(1) obtain mid where
    c: "renderBlock state child ctx parents = Inr mid"
    and r: "renderChildren mid rest ctx parents = Inr state'"
    by (auto split: sum.splits)
  from "4.IH"(1) [OF c "4.prems"(2,3)]
  have "\<forall>k\<in>set (map fst mid). k = ''root'' \<or> startsWith k ''@''" .
  from "4.IH"(2) [OF c r "4.prems"(2) this] show ?case .
qed

lemma renderBlockContent_fragments:
  assumes "renderBlockContent state ctx sels b = Inr state'"
  shows "\<exists>more. map_of state' ctx = Some (fragmentsOf state ctx @ ownFragments sels b @ more)
           \<and> (children b = None \<longrightarrow> more = [])
           \<and> (ctx \<notin> set (map fst state) \<longrightarrow>
                (\<exists>later. map fst state' = map fst state @ ctx # later))"
proof -
  let ?own = "renderOwnContent state ctx sels b"
  have m: "map_of ?own ctx = Some (fragmentsOf state ctx @ ownFragments sels b)"
    by (simp add: map_of_renderOwnContent)
  have k: "ctx \<notin> set (map fst state) \<longrightarrow> map fst ?own = map fst state @ [ctx]"
    by (simp add: keys_renderOwnContent)
  show ?thesis
  proof (cases "children b = None \<or> children b = Some []")
    case True
    with assms have "state' = ?own"
      by (auto simp: renderBlockContent_unfold)
    with m k show ?thesis by auto
  next
    case False
    then obtain cs where ch: "children b = Some cs" and ne: "cs \<noteq> []" by auto
    with assms have "renderChildren ?own cs ctx sels = Inr state'"
      by (simp add: renderBlockContent_unfold)
    from render_extends(3) [OF this] have e: "stateExtends ?own state'" by simp
    with m obtain more where
      more: "map_of state' ctx = Some ((fragmentsOf state ctx @ ownFragments sels b) @ more)"
      unfolding stateExtends_def by blast
    from e have "prefix (map fst ?own) (map fst state')"
      by (simp add: stateExtends_def)
    then obtain later where "map fst state' = map fst ?own @ later"
      by (auto simp: prefix_def)
    with k have "ctx \<notin> set (map fst state) \<longrightarrow> map fst state' = map fst state @ ctx # later"
      by simp
    with more ch show ?thesis by auto
  qed
qed

lemma renderTarget_selectors:
  "renderTarget b ctx parents = Inr (target, sels') \<Longrightarrow> sels' = renderedSelectors b parents"
  by (cases "selectors b")
     (auto simp: renderTarget_def renderedSelectors_def split: if_splits)

text \<open>
  Claim C7, as stated, fails in its last part: the selectors of a fragment are those
  the block is rendered with, not the block's own. A responsive media query with a
  property, inside the rule \<open>.a\<close>, contributes the fragment \<open>.a{color:red}\<close> to its
  context, where its own selectors would give \<open>@media screen{color:red}\<close>; and the
  rule \<open>.b\<close> inside \<open>.a\<close> contributes \<open>.a .b{color:red}\<close>.
\<close>

theorem render_fragment_selectors_counterexample:
  "renderBlock [(''root'', [])]
     (Block [''@media screen''] (Some [\<lparr>key = ''color'', val = ''red''\<rparr>]) None None)
     ''root'' [''.a'']
   = Inr [(''root'', []), (''@media screen'', [''.a{color:red}''])]
   \<and> join (selectors (Block [''@media screen''] (Some [\<lparr>key = ''color'', val = ''red''\<rparr>]) None None))
        '','' @ ''{'' @ renderProperties [\<lparr>key = ''color'', val = ''red''\<rparr>] @ ''}''
      = ''@media screen{color:red}''
   \<and> renderBlock [(''root'', [])]
        (Block [''.b''] (Some [\<lparr>key = ''color'', val = ''red''\<rparr>]) None None) ''root'' [''.a'']
      = Inr [(''root'', [''.a .b{color:red}''])]
   \<and> renderTreeToString
        [Block [''.a''] None
           (Some [Block [''@media screen''] (Some [\<lparr>key = ''color'', val = ''red''\<rparr>]) None None])
           None]
      = Inr ''@media screen{.a{color:red}}''"
  by code_simp

text \<open>
  Claim C7, amended. The output is the concatenation, over the contexts in the order in which
  they were first seen (each named \<open>root\<close> or starting with \<open>@\<close>, and none twice), of
  what each context emits: nothing when it has no fragment,
  its fragments as they are for \<open>root\<close>, and for any other context its name, \<open>{\<close>, its
  fragments and \<open>}\<close>. First-seen order: rendering a block keeps the contexts there are,
  in their order and each with its fragments so far as its first fragments, and puts
  a context that is new right after them. Within its context, a block rendered with a
  selector list contributes, after the fragments there are and before those of its
  descendants, exactly one fragment when it has one or more properties (the selector
  list joined by \<open>,\<close>, then \<open>{\<close>, the properties as \<open>key:value\<close> joined by \<open>;\<close>, then \<open>}\<close>) and
  none when it has no property. The selector list a block is rendered with is
  given by the rule that applies to it: the inherited parents for a responsive media
  query and a color-scheme at-rule, none for any other at-rule, its own selectors
  combined with the parents for an ordinary rule.
\<close>

theorem render_assembly:
  "(renderTreeToString blocks = Inr out \<longrightarrow>
      (\<exists>state. renderChildren [] blocks ''root'' [] = Inr state
         \<and> distinct (map fst state)
         \<and> (\<forall>k\<in>set (map fst state). k = ''root'' \<or> startsWith k ''@'')
         \<and> out = concat (map emitContext state)))
   \<and> emitContext (''root'', frs) = concat frs
   \<and> (c \<noteq> ''root'' \<and> frs \<noteq> [] \<longrightarrow> emitContext (c, frs) = c @ ''{'' @ concat frs @ ''}'')
   \<and> emitContext (c, []) = []
   \<and> (distinct (map fst state) \<and> renderBlockContent state ctx sels b = Inr state' \<longrightarrow>
        distinct (map fst state') \<and> stateExtends state state'
        \<and> (\<exists>more. map_of state' ctx
               = Some (fragmentsOf state ctx @ ownFragments sels b @ more)
             \<and> (children b = None \<longrightarrow> more = [])
             \<and> (ctx \<notin> set (map fst state) \<longrightarrow>
                  (\<exists>later. map fst state' = map fst state @ ctx # later))))
   \<and> (renderBlock state b ctx parents = Inr state' \<longrightarrow>
        (\<exists>target more.
            renderBlockContent state target (renderedSelectors b parents) b = Inr state'
            \<and> map_of state' target
                = Some (fragmentsOf state target @ ownFragments (renderedSelectors b parents) b
                        @ more)))
   \<and> (properties b = Some ps \<and> ps \<noteq> [] \<longrightarrow>
        ownFragments sels b
          = [join sels '','' @ ''{'' @ join (map (\<lambda>p. key p @ '':'' @ val p) ps) '';'' @ ''}''])
   \<and> (properties b = None \<or> properties b = Some [] \<longrightarrow> ownFragments sels b = [])"
proof (intro conjI impI)
  assume "renderTreeToString blocks = Inr out"
  then obtain state where r: "renderChildren [] blocks ''root'' [] = Inr state"
    and o: "out = concat (map (\<lambda>(context, blocks).
                 if blocks = [] then []
                 else if context = ''root'' then concat blocks
                 else context @ ''{'' @ concat blocks @ ''}'') state)"
    by (auto simp: renderTreeToString_def split: sum.splits)
  have "(\<lambda>(context, blocks).
                 if blocks = [] then []
                 else if context = ''root'' then concat blocks
                 else context @ ''{'' @ concat blocks @ ''}'') = emitContext"
    by (auto simp: emitContext_def fun_eq_iff)
  with o have "out = concat (map emitContext state)" by simp
  moreover from render_extends(3) [OF r] have "distinct (map fst state)" by simp
  moreover from render_context_names(3) [OF r]
  have "\<forall>k\<in>set (map fst state). k = ''root'' \<or> startsWith k ''@''" by simp
  ultimately show "\<exists>state. renderChildren [] blocks ''root'' [] = Inr state
         \<and> distinct (map fst state)
         \<and> (\<forall>k\<in>set (map fst state). k = ''root'' \<or> startsWith k ''@'')
         \<and> out = concat (map emitContext state)"
    using r by blast
next
  show "emitContext (''root'', frs) = concat frs"
    by (simp add: emitContext_def)
next
  assume "c \<noteq> ''root'' \<and> frs \<noteq> []"
  then show "emitContext (c, frs) = c @ ''{'' @ concat frs @ ''}''"
    by (simp add: emitContext_def)
next
  show "emitContext (c, []) = []"
    by (simp add: emitContext_def)
next
  assume h: "distinct (map fst state) \<and> renderBlockContent state ctx sels b = Inr state'"
  with render_extends(2) [of state ctx sels b state']
  show "distinct (map fst state')" and "stateExtends state state'"
    by simp_all
  from h renderBlockContent_fragments [of state ctx sels b state']
  show "\<exists>more. map_of state' ctx
               = Some (fragmentsOf state ctx @ ownFragments sels b @ more)
             \<and> (children b = None \<longrightarrow> more = [])
             \<and> (ctx \<notin> set (map fst state) \<longrightarrow>
                  (\<exists>later. map fst state' = map fst state @ ctx # later))"
    by simp
next
  assume "renderBlock state b ctx parents = Inr state'"
  then obtain target sels' where t: "renderTarget b ctx parents = Inr (target, sels')"
    and r: "renderBlockContent state target sels' b = Inr state'"
    by (auto simp: renderBlock_unfold split: sum.splits)
  from renderTarget_selectors [OF t] r
  have r': "renderBlockContent state target (renderedSelectors b parents) b = Inr state'"
    by simp
  from renderBlockContent_fragments [OF r'] obtain more where
    "map_of state' target
       = Some (fragmentsOf state target @ ownFragments (renderedSelectors b parents) b @ more)"
    by blast
  with r' show "\<exists>target more.
            renderBlockContent state target (renderedSelectors b parents) b = Inr state'
            \<and> map_of state' target
                = Some (fragmentsOf state target @ ownFragments (renderedSelectors b parents) b
                        @ more)"
    by blast
next
  assume "properties b = Some ps \<and> ps \<noteq> []"
  then show "ownFragments sels b
          = [join sels '','' @ ''{'' @ join (map (\<lambda>p. key p @ '':'' @ val p) ps) '';'' @ ''}'']"
    by (simp add: ownFragments_def)
next
  assume "properties b = None \<or> properties b = Some []"
  then show "ownFragments sels b = []"
    by (auto simp: ownFragments_def)
qed

lemma assembly_example:
  "renderTreeToString
     [Block [''.a''] (Some [\<lparr>key = ''x'', val = ''1''\<rparr>])
        (Some [Block [''@media screen''] None
           (Some [Block [''.b''] (Some [\<lparr>key = ''y'', val = ''2''\<rparr>, \<lparr>key = ''z'', val = ''3''\<rparr>])
              None None]) None]) None,
      Block [''@font-face''] None None None,
      Block [''.c'', ''.d''] (Some [\<lparr>key = ''w'', val = ''4''\<rparr>]) None None]
   = Inr ''.a{x:1}.c,.d{w:4}@media screen{.a .b{y:2;z:3}}''"
  "distinct (map fst [(''root'', [''.a{x:1}''])])
   \<and> renderBlockContent [(''root'', [''.a{x:1}''])] ''@media screen'' [''.a .b'']
       (Block [''.b''] (Some [\<lparr>key = ''y'', val = ''2''\<rparr>, \<lparr>key = ''z'', val = ''3''\<rparr>]) None None)
     = Inr [(''root'', [''.a{x:1}'']), (''@media screen'', [''.a .b{y:2;z:3}''])]"
  "renderBlock [(''root'', [])]
     (Block [''@media screen''] (Some [\<lparr>key = ''color'', val = ''red''\<rparr>]) None None)
     ''root'' [''.a'']
   = Inr [(''root'', []), (''@media screen'', [''.a{color:red}''])]"
  by code_simp+

text \<open>
  A tree with a rule, a responsive media query inside it, an at-rule without content
  and a rule with two selectors: \<open>root\<close> is seen first and emitted first, without a
  wrapper, \<open>@media screen\<close> wraps its one fragment, \<open>@font-face\<close> is left out. And a
  responsive media query with a property, rendered with the parent \<open>.a\<close>.
\<close>

theorem render_assembly_witness:
  "(\<exists>state. renderChildren []
       [Block [''.a''] (Some [\<lparr>key = ''x'', val = ''1''\<rparr>])
          (Some [Block [''@media screen''] None
             (Some [Block [''.b''] (Some [\<lparr>key = ''y'', val = ''2''\<rparr>, \<lparr>key = ''z'', val = ''3''\<rparr>])
                None None]) None]) None,
        Block [''@font-face''] None None None,
        Block [''.c'', ''.d''] (Some [\<lparr>key = ''w'', val = ''4''\<rparr>]) None None]
       ''root'' [] = Inr state
      \<and> distinct (map fst state)
      \<and> (\<forall>k\<in>set (map fst state). k = ''root'' \<or> startsWith k ''@'')
      \<and> ''.a{x:1}.c,.d{w:4}@media screen{.a .b{y:2;z:3}}'' = concat (map emitContext state))
   \<and> distinct (map fst [(''root'', [''.a{x:1}'']), (''@media screen'', [''.a .b{y:2;z:3}''])])
   \<and> stateExtends [(''root'', [''.a{x:1}''])]
        [(''root'', [''.a{x:1}'']), (''@media screen'', [''.a .b{y:2;z:3}''])]
   \<and> (\<exists>target more.
        renderBlockContent [(''root'', [])] target
          (renderedSelectors
             (Block [''@media screen''] (Some [\<lparr>key = ''color'', val = ''red''\<rparr>]) None None)
             [''.a''])
          (Block [''@media screen''] (Some [\<lparr>key = ''color'', val = ''red''\<rparr>]) None None)
        = Inr [(''root'', []), (''@media screen'', [''.a{color:red}''])]
      \<and> map_of [(''root'', []), (''@media screen'', [''.a{color:red}''])] target
        = Some (fragmentsOf [(''root'', [])] target
            @ ownFragments
                (renderedSelectors
                   (Block [''@media screen''] (Some [\<lparr>key = ''color'', val = ''red''\<rparr>]) None None)
                   [''.a''])
                (Block [''@media screen''] (Some [\<lparr>key = ''color'', val = ''red''\<rparr>]) None None)
            @ more))"
proof -
  note first = render_assembly [THEN conjunct1, THEN mp, OF assembly_example(1)]
  note second = render_assembly [THEN conjunct2, THEN conjunct2, THEN conjunct2,
      THEN conjunct2, THEN conjunct1, THEN mp, OF assembly_example(2)]
  note third = render_assembly [THEN conjunct2, THEN conjunct2, THEN conjunct2,
      THEN conjunct2, THEN conjunct2, THEN conjunct1, THEN mp, OF assembly_example(3)]
  from first second [THEN conjunct1] second [THEN conjunct2, THEN conjunct1] third
  show ?thesis by (intro conjI)
qed

end
